theory Spec2Isabelle
  imports Main "HOL-Library.Word" "HOL-Library.Sublist"
begin

section \<open>Strings\<close>

text \<open>
  Go strings and byte slices are byte sequences: \<^typ>\<open>string\<close>, a list of 8-bit
  characters. The helpers below are the functions of Go's \<^verbatim>\<open>strings\<close>,
  \<^verbatim>\<open>path/filepath\<close> and \<^verbatim>\<open>encoding/binary\<close> packages that the program calls.
\<close>

text \<open>\<^verbatim>\<open>strings.Contains(s, sub)\<close>: \<open>sub\<close> occurs in \<open>s\<close> as a contiguous block.\<close>

fun Contains :: "string \<Rightarrow> string \<Rightarrow> bool" where
  "Contains [] sub = (sub = [])"
| "Contains (c # s) sub = (prefix sub (c # s) \<or> Contains s sub)"

text \<open>\<^verbatim>\<open>strings.HasSuffix\<close>, \<^verbatim>\<open>strings.TrimPrefix\<close>.\<close>

definition HasSuffix :: "string \<Rightarrow> string \<Rightarrow> bool" where
  "HasSuffix s suf = (length suf \<le> length s \<and> drop (length s - length suf) s = suf)"

definition TrimPrefix :: "string \<Rightarrow> string \<Rightarrow> string" where
  "TrimPrefix s pre = (if prefix pre s then drop (length pre) s else s)"

text \<open>
  \<^verbatim>\<open>strings.Index(s, sub)\<close>: the offset of the first occurrence of \<open>sub\<close>, \<open>None\<close>
  for Go's \<open>-1\<close>.
\<close>

fun Index :: "string \<Rightarrow> string \<Rightarrow> nat option" where
  "Index [] sub = (if sub = [] then Some 0 else None)"
| "Index (c # s) sub =
     (if prefix sub (c # s) then Some 0 else map_option Suc (Index s sub))"

text \<open>
  \<^verbatim>\<open>strings.SplitN(s, "/", 2)\<close>: one part when \<open>s\<close> has no slash, otherwise the text
  before the first slash and the whole rest.
\<close>

definition SplitN2 :: "string \<Rightarrow> string list" where
  "SplitN2 s =
     (case Index s ''/'' of
        None \<Rightarrow> [s]
      | Some i \<Rightarrow> [take i s, drop (Suc i) s])"

text \<open>
  \<^verbatim>\<open>strings.ToLower\<close> on the ASCII letters. Bytes outside \<open>A..Z\<close> are kept here; Go
  maps some non-ASCII runes to other runes, none of them to a character of
  \<open>.mp4\<close> or \<open>.m4v\<close>, so the comparisons of \<open>needsTranscode\<close> agree.
\<close>

definition lower_char :: "char \<Rightarrow> char" where
  "lower_char c =
     (let n = (of_char c :: nat) in if 65 \<le> n \<and> n \<le> 90 then char_of (n + 32) else c)"

definition ToLower :: "string \<Rightarrow> string" where
  "ToLower s = map lower_char s"

text \<open>
  \<^verbatim>\<open>filepath.Ext\<close>: scan from the end of the path, stop at a path separator, return
  the suffix that starts at the last dot of the last element. \<open>ext_scan\<close> walks the
  reversed path and collects the characters it has passed.
\<close>

fun ext_scan :: "string \<Rightarrow> string \<Rightarrow> string" where
  "ext_scan [] acc = []"
| "ext_scan (c # r) acc =
     (if c = CHR ''/'' then []
      else if c = CHR ''.'' then c # acc
      else ext_scan r (c # acc))"

definition Ext :: "string \<Rightarrow> string" where
  "Ext path = ext_scan (rev path) []"

text \<open>
  \<^verbatim>\<open>filepath.Clean\<close> with the separator \<open>/\<close>. Go scans the path once; element by
  element it does this: empty elements and \<open>.\<close> are dropped; \<open>..\<close> removes the element
  written last, is dropped at the root of a rooted path, and is kept at the front of a
  path that is not rooted; every other element is kept. The elements are written with
  single separators behind the leading \<open>/\<close> of a rooted path, and an empty result is
  \<open>.\<close>. \<open>splitSep\<close> gives the elements, \<open>cleanElems\<close> works on them with the
  elements written so far (last one first), \<open>joinSep\<close> writes the result.
\<close>

fun splitSep :: "string \<Rightarrow> string list" where
  "splitSep [] = [[]]"
| "splitSep (c # s) =
     (if c = CHR ''/'' then [] # splitSep s
      else (case splitSep s of
              [] \<Rightarrow> [[c]]
            | e # es \<Rightarrow> (c # e) # es))"

fun cleanElems :: "bool \<Rightarrow> string list \<Rightarrow> string list \<Rightarrow> string list" where
  "cleanElems rooted out [] = rev out"
| "cleanElems rooted out (e # es) =
     (if e = [] \<or> e = ''.'' then cleanElems rooted out es
      else if e = ''..''
      then (case out of
              [] \<Rightarrow> if rooted then cleanElems rooted out es
                    else cleanElems rooted (e # out) es
            | prev # rest \<Rightarrow>
                if prev = ''..'' then cleanElems rooted (e # out) es
                else cleanElems rooted rest es)
      else cleanElems rooted (e # out) es)"

fun joinSep :: "string list \<Rightarrow> string" where
  "joinSep [] = []"
| "joinSep [e] = e"
| "joinSep (e # es) = e @ ''/'' @ joinSep es"

definition Clean :: "string \<Rightarrow> string" where
  "Clean path =
     (case path of
        [] \<Rightarrow> ''.''
      | c # rest \<Rightarrow>
          (let rooted = (c = CHR ''/'');
               body = joinSep (cleanElems rooted [] (splitSep path));
               out = (if rooted then CHR ''/'' # body else body)
           in if out = [] then ''.'' else out))"

text \<open>
  \<^verbatim>\<open>filepath.Join\<close> of two elements: leading empty elements are ignored, the rest is
  joined with the separator and cleaned; with nothing left the result is empty.
\<close>

definition Join :: "string \<Rightarrow> string \<Rightarrow> string" where
  "Join dir name =
     (if dir \<noteq> [] then Clean (dir @ ''/'' @ name)
      else if name \<noteq> [] then Clean name
      else [])"

text \<open>\<^verbatim>\<open>binary.BigEndian.Uint32\<close> and \<^verbatim>\<open>Uint64\<close>: the bytes as a base-256 number.\<close>

definition be_nat :: "string \<Rightarrow> nat" where
  "be_nat bs = foldl (\<lambda>a c. a * 256 + of_char c) 0 bs"

section \<open>Files\<close>

text \<open>
  A regular file: its bytes, its modification time in nanoseconds, whether
  \<^verbatim>\<open>os.Open\<close> succeeds on it, and the byte offsets at which the device fails a read.
\<close>

record fnode =
  content :: string
  modTime :: int
  openable :: bool
  ioerr :: "nat \<Rightarrow> bool"

type_synonym fsys = "string \<rightharpoonup> fnode"

text \<open>\<^verbatim>\<open>os.Stat\<close>: size and modification time of an existing file.\<close>

definition Stat :: "fsys \<Rightarrow> string \<Rightarrow> (nat \<times> int) option" where
  "Stat fs p = map_option (\<lambda>f. (length (content f), modTime f)) (fs p)"

definition os_Open :: "fsys \<Rightarrow> string \<Rightarrow> fnode option" where
  "os_Open fs p = (case fs p of None \<Rightarrow> None | Some f \<Rightarrow> if openable f then Some f else None)"

text \<open>\<^verbatim>\<open>os.ReadFile\<close>: the whole content, or an error.\<close>

definition ReadFile :: "fsys \<Rightarrow> string \<Rightarrow> string option" where
  "ReadFile fs p =
     (case os_Open fs p of
        None \<Rightarrow> None
      | Some f \<Rightarrow> if list_ex (ioerr f) [0..<length (content f)] then None else Some (content f))"

text \<open>
  Reading \<open>n\<close> bytes at a byte offset: an error (\<open>None\<close>) when fewer than \<open>n\<close> bytes
  are left or the device fails on one of them.
\<close>

definition read_bytes :: "fnode \<Rightarrow> nat \<Rightarrow> nat \<Rightarrow> string option" where
  "read_bytes f off n =
     (if off + n \<le> length (content f) \<and> \<not> list_ex (ioerr f) [off..<off + n]
      then Some (take n (drop off (content f)))
      else None)"

text \<open>
  \<^verbatim>\<open>f.ReadAt(buf, offset)\<close> with an \<^verbatim>\<open>int64\<close> offset: a negative offset is an error,
  and so is a short read. \<^verbatim>\<open>info.Size()\<close> is an \<^verbatim>\<open>int64\<close> too.
\<close>

definition ReadAt :: "fnode \<Rightarrow> 64 word \<Rightarrow> nat \<Rightarrow> string option" where
  "ReadAt f offset n = (if sint offset < 0 then None else read_bytes f (nat (sint offset)) n)"

definition Size :: "fnode \<Rightarrow> 64 word" where
  "Size f = of_nat (length (content f))"

section \<open>The MP4 layout inspector and the playability classifier\<close>

definition largeMp4Threshold :: nat where
  "largeMp4Threshold = 500 * 1024 * 1024"

definition needsTranscode :: "string \<Rightarrow> bool" where
  "needsTranscode filePath =
     (let ext = ToLower (Ext filePath) in ext \<noteq> ''.mp4'' \<and> ext \<noteq> ''.m4v'')"

text \<open>
  The loop of \<open>hasMoovAtFront\<close> on the opened file. \<open>offset\<close> and \<open>size\<close> are
  \<^verbatim>\<open>int64\<close>: additions wrap, comparisons are signed. Every \<^verbatim>\<open>break\<close> leaves the loop
  for the final \<^verbatim>\<open>return true\<close>.
\<close>

function hasMoovAtFront_loop :: "fnode \<Rightarrow> 64 word \<Rightarrow> bool" where
  "hasMoovAtFront_loop f offset =
     (case ReadAt f offset 8 of
        None \<Rightarrow> True
      | Some buf \<Rightarrow>
          (let size0 = (of_nat (be_nat (take 4 buf)) :: 64 word);
               boxType = take 4 (drop 4 buf)
           in case (if size0 = 1
                    then map_option (\<lambda>buf64. of_nat (be_nat buf64)) (ReadAt f (offset + 8) 8)
                    else Some size0) of
                None \<Rightarrow> True
              | Some size1 \<Rightarrow>
                  (let size2 = (if size1 = 0 then Size f - offset else size1)
                   in if sint size2 < 8 then True
                      else if boxType = ''moov'' then True
                      else if boxType = ''mdat'' then False
                      else hasMoovAtFront_loop f (offset + size2))))"
  by pat_completeness auto

termination hasMoovAtFront_loop
proof (relation "measure (\<lambda>(f, offset). if sint offset < 0 then 0 else nat (2 ^ 63 - sint offset))")
  show "wf (measure (\<lambda>(f :: fnode, offset :: 64 word).
          if sint offset < 0 then 0 else nat (2 ^ 63 - sint offset)))"
    by simp
next
  fix f :: fnode and offset size2 :: "64 word" and buf :: string
  assume rd: "ReadAt f offset 8 = Some buf"
    and ge: "\<not> sint size2 < 8"
  from rd have nonneg: "0 \<le> sint offset" by (simp add: ReadAt_def split: if_splits)
  have lt: "sint offset < 2 ^ 63" using sint_lt [of offset] by simp
  from ge have ge8: "8 \<le> sint size2" by simp
  have sum: "sint (offset + size2) = signed_take_bit 63 (sint offset + sint size2)"
    by (simp add: sint_word_ariths)
  have "sint (offset + size2) < 0 \<or> sint offset < sint (offset + size2)"
  proof (cases "sint offset + sint size2 < 2 ^ 63")
    case True
    have "- (2 ^ 63) \<le> sint offset + sint size2" using nonneg ge8 by simp
    with True have "signed_take_bit 63 (sint offset + sint size2) = sint offset + sint size2"
      by (simp add: signed_take_bit_int_eq_self)
    with sum ge8 show ?thesis by linarith
  next
    case False
    then have "2 ^ 63 \<le> sint offset + sint size2" by simp
    then have "signed_take_bit 63 (sint offset + sint size2)
        \<le> sint offset + sint size2 - 2 ^ Suc 63"
      by (rule signed_take_bit_int_less_eq)
    moreover have "sint size2 < 2 ^ 63" using sint_lt [of size2] by simp
    moreover have "(2::int) ^ Suc 63 = 2 * 2 ^ 63" by simp
    ultimately have "signed_take_bit 63 (sint offset + sint size2) < 0" using lt by linarith
    with sum show ?thesis by linarith
  qed
  with nonneg lt
  show "((f, offset + size2), (f, offset))
        \<in> measure (\<lambda>(f, offset). if sint offset < 0 then 0 else nat (2 ^ 63 - sint offset))"
    by auto
qed

declare hasMoovAtFront_loop.simps [simp del]

definition hasMoovAtFront :: "fsys \<Rightarrow> string \<Rightarrow> bool" where
  "hasMoovAtFront fs filePath =
     (case os_Open fs filePath of
        None \<Rightarrow> False
      | Some f \<Rightarrow> hasMoovAtFront_loop f 0)"

definition needsStreamingMp4 :: "fsys \<Rightarrow> string \<Rightarrow> bool" where
  "needsStreamingMp4 fs filePath =
     (case Stat fs filePath of
        None \<Rightarrow> False
      | Some (sz, mt) \<Rightarrow> if sz < largeMp4Threshold then False else \<not> hasMoovAtFront fs filePath)"

text \<open>The decision of \<open>handlePlay\<close>: HLS or direct serving.\<close>

definition useHLS :: "fsys \<Rightarrow> string \<Rightarrow> bool" where
  "useHLS fs fullPath = (needsTranscode fullPath \<or> needsStreamingMp4 fs fullPath)"

section \<open>The box walk as the specification words it\<close>




definition spec_moov_first :: "string list \<Rightarrow> bool" where
  "spec_moov_first ts =
     (case find (\<lambda>t. t = ''moov'' \<or> t = ''mdat'') ts of
        None \<Rightarrow> True
      | Some t \<Rightarrow> t = ''moov'')"

text \<open>
  The same walk with the one difference the program makes: the 64-bit value is read as
  an \<^verbatim>\<open>int64\<close> (two's complement), so that a value of \<open>2 ^ 63\<close> or more is negative
  and, being below 8, ends the walk.
\<close>

definition be_int64 :: "string \<Rightarrow> int" where
  "be_int64 bs = (let n = int (be_nat bs) in if n < 2 ^ 63 then n else n - 2 ^ 64)"

function walk_boxes_int64 :: "fnode \<Rightarrow> nat \<Rightarrow> string list" where
  "walk_boxes_int64 f off =
     (case read_bytes f off 8 of
        None \<Rightarrow> []
      | Some hdr \<Rightarrow>
          (let size32 = be_nat (take 4 hdr);
               boxType = take 4 (drop 4 hdr)
           in case (if size32 = 1
                    then map_option be_int64 (read_bytes f (off + 8) 8)
                    else Some (int size32)) of
                None \<Rightarrow> []
              | Some s \<Rightarrow>
                  (let size = (if s = 0 then int (length (content f)) - int off else s)
                   in if size < 8 then []
                      else boxType # walk_boxes_int64 f (off + nat size))))"
  by pat_completeness auto

termination walk_boxes_int64
proof (relation "measure (\<lambda>(f, off). length (content f) - off)")
  show "wf (measure (\<lambda>(f :: fnode, off :: nat). length (content f) - off))" by simp
next
  fix f :: fnode and off :: nat and hdr :: string and size :: int
  assume rd: "read_bytes f off 8 = Some hdr" and ge: "\<not> size < 8"
  from rd have "off + 8 \<le> length (content f)"
    by (simp add: read_bytes_def split: if_splits)
  with ge show "((f, off + nat size), (f, off)) \<in> measure (\<lambda>(f, off). length (content f) - off)"
    by simp
qed

declare walk_boxes_int64.simps [simp del]

section \<open>The HLS job registry\<close>

text \<open>
  What the program takes from outside: the first 8 bytes of the MD5 digest in hex
  (\<^verbatim>\<open>fmt.Sprintf("%x", h[:8])\<close>), the host operating system, the paths of the two
  external tools, and the standard output of \<^verbatim>\<open>ffprobe\<close> for an argument vector
  (\<open>None\<close> when \<^verbatim>\<open>cmd.Output()\<close> returns an error).
\<close>

record env =
  md5hex8 :: "string \<Rightarrow> string"
  GOOS :: string
  ffmpegPath :: string
  ffprobePath :: string
  ffprobe :: "string list \<Rightarrow> string option"

text \<open>\<^verbatim>\<open>exec.Cmd\<close>: \<open>Process\<close> is nil until \<^verbatim>\<open>Start\<close> has created the process.\<close>

record exec_Cmd =
  Path :: string
  Args :: "string list"
  Process :: "nat option"

text \<open>\<open>Done\<close> is the channel: \<open>True\<close> once it is closed.\<close>

record HLSJob =
  Dir :: string
  Cmd :: "exec_Cmd option"
  Done :: bool
  Cached :: bool
  lastAccess :: int

text \<open>
  What the program does to the outside: \<^verbatim>\<open>ffprobe\<close> run with its arguments, the
  runner goroutine started for the job at an address (it runs \<^verbatim>\<open>cmd.Run()\<close>), the
  process created by \<^verbatim>\<open>cmd.Start\<close>, and a process killed.
\<close>

datatype event =
    Probe "string list"
  | Go nat
  | Spawn nat string "string list"
  | Kill nat

datatype error = MkdirError

text \<open>
  The state: the registry \<open>hlsJobs\<close> maps a key to the address of its job
  (\<^verbatim>\<open>*HLSJob\<close>), \<open>heap\<close> holds the jobs, \<open>files\<close> and \<open>dirs\<close> are the
  filesystem, \<open>mkdirDenied\<close> the directories the operating system refuses to create,
  \<open>now\<close> is \<^verbatim>\<open>time.Now().Unix()\<close>.
\<close>

record world =
  hlsCacheDir :: string
  hlsJobs :: "string \<rightharpoonup> nat"
  heap :: "nat \<Rightarrow> HLSJob"
  nextAddr :: nat
  files :: fsys
  dirs :: "string set"
  mkdirDenied :: "string \<Rightarrow> bool"
  now :: int
  trace :: "event list"

text \<open>\<^verbatim>\<open>&HLSJob{...}\<close>: a new job at a fresh address.\<close>

definition new_job :: "world \<Rightarrow> HLSJob \<Rightarrow> nat \<times> world" where
  "new_job w j =
     (nextAddr w, w\<lparr>heap := (heap w)(nextAddr w := j), nextAddr := Suc (nextAddr w)\<rparr>)"

text \<open>
  \<^verbatim>\<open>os.MkdirAll\<close>: nothing to do for an existing directory; an error when the path is
  a regular file or the operating system refuses. \<^verbatim>\<open>os.RemoveAll\<close> removes the path
  and everything below it.
\<close>

definition MkdirAll :: "world \<Rightarrow> string \<Rightarrow> world option" where
  "MkdirAll w p =
     (if p \<in> dirs w then Some w
      else if files w p \<noteq> None \<or> mkdirDenied w p then None
      else Some (w\<lparr>dirs := insert p (dirs w)\<rparr>))"

definition under :: "string \<Rightarrow> string \<Rightarrow> bool" where
  "under dir p = (p = dir \<or> prefix (dir @ ''/'') p)"

definition RemoveAll :: "world \<Rightarrow> string \<Rightarrow> world" where
  "RemoveAll w dir =
     w\<lparr>files := (\<lambda>p. if under dir p then None else files w p),
       dirs := {p \<in> dirs w. \<not> under dir p}\<rparr>"

text \<open>\<^verbatim>\<open>%d\<close> of \<^verbatim>\<open>fmt.Sprintf\<close>.\<close>

fun dec_nat :: "nat \<Rightarrow> string" where
  "dec_nat n =
     (if n < 10 then [char_of (48 + n)]
      else dec_nat (n div 10) @ [char_of (48 + n mod 10)])"

declare dec_nat.simps [simp del]

definition show_int :: "int \<Rightarrow> string" where
  "show_int i = (if i < 0 then CHR ''-'' # dec_nat (nat (- i)) else dec_nat (nat i))"

definition hlsJobKey :: "env \<Rightarrow> fsys \<Rightarrow> string \<Rightarrow> string" where
  "hlsJobKey e fs filePath =
     (let mtime = (case Stat fs filePath of None \<Rightarrow> 0 | Some (sz, mt) \<Rightarrow> mt);
          data = filePath @ ''|'' @ show_int mtime
      in md5hex8 e data)"

definition isCacheComplete :: "fsys \<Rightarrow> string \<Rightarrow> bool" where
  "isCacheComplete fs dir =
     (let m3u8Path = Join dir ''stream.m3u8''
      in case ReadFile fs m3u8Path of
           None \<Rightarrow> False
         | Some data \<Rightarrow> Contains data ''#EXT-X-ENDLIST'')"

definition probeArgs :: "string \<Rightarrow> string list" where
  "probeArgs filePath =
     [''-v'', ''quiet'', ''-select_streams'', ''v:0'', ''-show_entries'', ''stream=codec_name'',
      ''-print_format'', ''flat'', filePath]"

definition probeVideoCodec :: "env \<Rightarrow> string \<Rightarrow> string" where
  "probeVideoCodec e filePath =
     (case ffprobe e (probeArgs filePath) of
        None \<Rightarrow> []
      | Some out \<Rightarrow>
          (case Index out [CHR ''='', CHR 0x22] of
             None \<Rightarrow> []
           | Some idx \<Rightarrow>
               (let s = drop (idx + 2) out
                in case Index s [CHR 0x22] of
                     None \<Rightarrow> []
                   | Some e \<Rightarrow> take e s)))"

definition canBrowserPlayCodec :: "string \<Rightarrow> bool" where
  "canBrowserPlayCodec codec = (codec = ''h264'' \<or> codec = ''avc1'' \<or> codec = ''avc'')"

definition commonArgs :: "string \<Rightarrow> string list" where
  "commonArgs segPattern =
     [''-map'', ''0:v:0'', ''-map'', ''0:a:0?'', ''-c:a'', ''aac'', ''-ac'', ''2'',
      ''-b:a'', ''128k'', ''-f'', ''hls'', ''-hls_time'', ''6'', ''-hls_list_size'', ''0'',
      ''-hls_segment_filename'', segPattern, ''-hls_flags'', ''independent_segments'']"

definition ffmpegArgs :: "env \<Rightarrow> string \<Rightarrow> string \<Rightarrow> string \<Rightarrow> string list" where
  "ffmpegArgs e codec filePath cacheDir =
     (let m3u8Path = Join cacheDir ''stream.m3u8'';
          segPattern = Join cacheDir ''seg%05d.ts'';
          args =
            (if canBrowserPlayCodec codec
             then [''-loglevel'', ''error'', ''-i'', filePath, ''-c:v'', ''copy'',
                   ''-bsf:v'', ''h264_mp4toannexb''] @ commonArgs segPattern
             else
               (let videoArgs =
                      (if GOOS e = ''darwin''
                       then [''-c:v'', ''h264_videotoolbox'', ''-b:v'', ''4M'']
                       else [''-c:v'', ''libx264'', ''-preset'', ''fast'', ''-b:v'', ''4M''])
                in [''-loglevel'', ''error'', ''-i'', filePath] @ videoArgs
                   @ [''-force_key_frames'', ''expr:gte(t,n_forced*2)'']
                   @ commonArgs segPattern))
      in args @ [m3u8Path])"

text \<open>
  \<open>getOrStartHLS\<close>, the whole of it under the registry lock. The result is the job's
  address or the error; the goroutine it starts is the \<open>Go\<close> event, and its body is
  \<open>runner_start\<close> and \<open>runner_finish\<close> below.
\<close>

definition getOrStartHLS :: "env \<Rightarrow> world \<Rightarrow> string \<Rightarrow> (error + nat) \<times> world" where
  "getOrStartHLS e w filePath =
     (let key = hlsJobKey e (files w) filePath
      in case hlsJobs w key of
           Some job \<Rightarrow> (Inr job, w)
         | None \<Rightarrow>
             (let cacheDir = Join (hlsCacheDir w) key
              in if isCacheComplete (files w) cacheDir
                 then
                   (let (job, w1) =
                          new_job w \<lparr>Dir = cacheDir, Cmd = None, Done = True,
                                     Cached = True, lastAccess = now w\<rparr>
                    in (Inr job, w1\<lparr>hlsJobs := (hlsJobs w1)(key \<mapsto> job)\<rparr>))
                 else
                   (case MkdirAll w cacheDir of
                      None \<Rightarrow> (Inl MkdirError, w)
                    | Some w1 \<Rightarrow>
                        (let codec = probeVideoCodec e filePath;
                             w2 = w1\<lparr>trace := trace w1 @ [Probe (probeArgs filePath)]\<rparr>;
                             cmd = \<lparr>Path = ffmpegPath e,
                                    Args = ffmpegArgs e codec filePath cacheDir,
                                    Process = None\<rparr>;
                             (job, w3) =
                               new_job w2 \<lparr>Dir = cacheDir, Cmd = Some cmd, Done = False,
                                           Cached = False, lastAccess = now w2\<rparr>
                         in (Inr job,
                             w3\<lparr>hlsJobs := (hlsJobs w3)(key \<mapsto> job),
                                trace := trace w3 @ [Go job]\<rparr>)))))"

text \<open>
  The runner goroutine of the job at address \<open>job\<close>. \<^verbatim>\<open>cmd.Run()\<close> first starts the
  process (\<open>runner_start\<close>, which sets \<open>Process\<close>) and then waits for it.
  \<open>runner_finish\<close> is what follows the return of \<^verbatim>\<open>cmd.Run()\<close>: its error is nil
  exactly when the process was started and exited with status 0.
\<close>

datatype run_result = StartFailed | Exit int

definition runner_start :: "world \<Rightarrow> nat \<Rightarrow> nat \<Rightarrow> world" where
  "runner_start w job pid =
     (case Cmd (heap w job) of
        None \<Rightarrow> w
      | Some cmd \<Rightarrow>
          w\<lparr>heap := (heap w)(job := (heap w job)\<lparr>Cmd := Some (cmd\<lparr>Process := Some pid\<rparr>)\<rparr>),
            trace := trace w @ [Spawn pid (Path cmd) (Args cmd)]\<rparr>)"

definition runner_finish :: "world \<Rightarrow> nat \<Rightarrow> run_result \<Rightarrow> world" where
  "runner_finish w job r =
     (let cacheDir = Dir (heap w job);
          w1 = (if r \<noteq> Exit 0 then RemoveAll w cacheDir
                else w\<lparr>heap := (heap w)(job := (heap w job)\<lparr>Cached := True\<rparr>)\<rparr>)
      in w1\<lparr>heap := (heap w1)(job := (heap w1 job)\<lparr>Done := True\<rparr>)\<rparr>)"

definition TouchHLS :: "world \<Rightarrow> string \<Rightarrow> world" where
  "TouchHLS w key =
     (case hlsJobs w key of
        None \<Rightarrow> w
      | Some job \<Rightarrow> w\<lparr>heap := (heap w)(job := (heap w job)\<lparr>lastAccess := now w\<rparr>)\<rparr>)"

definition StopHLS :: "world \<Rightarrow> string \<Rightarrow> world" where
  "StopHLS w key =
     (case hlsJobs w key of
        None \<Rightarrow> w
      | Some job \<Rightarrow>
          (let w1 = w\<lparr>hlsJobs := (hlsJobs w)(key := None)\<rparr>
           in case Cmd (heap w1 job) of
                None \<Rightarrow> w1
              | Some cmd \<Rightarrow>
                  (case Process cmd of
                     None \<Rightarrow> w1
                   | Some pid \<Rightarrow>
                       if \<not> Cached (heap w1 job)
                       then RemoveAll (w1\<lparr>trace := trace w1 @ [Kill pid]\<rparr>) (Dir (heap w1 job))
                       else w1)))"

text \<open>
  The test of \<open>StopHLS\<close>, \<^verbatim>\<open>job.Cmd != nil && job.Cmd.Process != nil\<close>: the process
  the job holds, if any.
\<close>

definition heldProcess :: "HLSJob \<Rightarrow> nat option" where
  "heldProcess j = (case Cmd j of None \<Rightarrow> None | Some cmd \<Rightarrow> Process cmd)"

section \<open>The artifact server\<close>

text \<open>
  A response: \<^verbatim>\<open>http.NotFound\<close>, \<^verbatim>\<open>http.Error\<close> with its text and status, or the file
  handed to \<^verbatim>\<open>http.ServeFile\<close> with the headers set before.
\<close>

datatype response =
    NotFound
  | HttpError string nat
  | ServeFile "(string \<times> string) list" string

definition msgNoJob :: string where
  "msgNoJob =
     [CHR 0xE8, CHR 0xBD, CHR 0xAC, CHR 0xE7, CHR 0xA0, CHR 0x81, CHR 0xE4, CHR 0xBB, CHR 0xBB,
      CHR 0xE5, CHR 0x8A, CHR 0xA1, CHR 0xE4, CHR 0xB8, CHR 0x8D, CHR 0xE5, CHR 0xAD, CHR 0x98,
      CHR 0xE5, CHR 0x9C, CHR 0xA8, CHR 0xE6, CHR 0x88, CHR 0x96, CHR 0xE5, CHR 0xB7, CHR 0xB2,
      CHR 0xE7, CHR 0xBB, CHR 0x93, CHR 0xE6, CHR 0x9D, CHR 0x9F]"

text \<open>
  The two waiting loops of \<open>handleHLS\<close>: \<open>check i\<close> is the test made by attempt
  \<open>i\<close>; a failed attempt sleeps 100 ms. The result is \<open>ready\<close> and the number of
  sleeps.
\<close>

function pollLoop :: "(nat \<Rightarrow> bool) \<Rightarrow> nat \<Rightarrow> nat \<Rightarrow> bool \<times> nat" where
  "pollLoop check limit i =
     (if i < limit
      then (if check i then (True, i) else pollLoop check limit (Suc i))
      else (False, i))"
  by pat_completeness auto

termination
  by (relation "measure (\<lambda>(check, limit, i). limit - i)") auto

declare pollLoop.simps [simp del]

text \<open>
  The tests of the two waiting loops: the playlist can be read and contains \<open>.ts\<close>;
  \<^verbatim>\<open>os.Stat\<close> of the segment succeeds.
\<close>

definition playlistReady :: "fsys \<Rightarrow> string \<Rightarrow> bool" where
  "playlistReady fs filePath =
     (case ReadFile fs filePath of
        None \<Rightarrow> False
      | Some data \<Rightarrow> Contains data ''.ts'')"

definition segmentReady :: "fsys \<Rightarrow> string \<Rightarrow> bool" where
  "segmentReady fs filePath = (Stat fs filePath \<noteq> None)"

text \<open>
  The directory lookup of \<open>handleHLS\<close>: the directory of the registered job, else
  the cache directory of the key when it is complete, else none (the 404 branch).
\<close>

definition resolveDir :: "world \<Rightarrow> string \<Rightarrow> string option" where
  "resolveDir w key =
     (case hlsJobs w key of
        Some job \<Rightarrow> Some (Dir (heap w job))
      | None \<Rightarrow>
          (let cacheDir = Join (hlsCacheDir w) key
           in if isCacheComplete (files w) cacheDir then Some cacheDir else None))"

text \<open>
  \<open>handleHLS\<close> on the URL path of the request. The transcoder writes while the
  handler waits: \<open>fsAt i\<close> is the filesystem that attempt \<open>i\<close> of a waiting loop
  sees. The result is the response, the state, and the milliseconds slept.
\<close>

definition handleHLS :: "world \<Rightarrow> (nat \<Rightarrow> fsys) \<Rightarrow> string \<Rightarrow> response \<times> world \<times> nat" where
  "handleHLS w fsAt urlPath =
     (let path = TrimPrefix urlPath ''/hls/''
      in case SplitN2 path of
           [key, fileName] \<Rightarrow>
             if Contains fileName ''/'' \<or> Contains fileName ''..'' then (NotFound, w, 0)
             else
               (let w1 = TouchHLS w key
                in case resolveDir w1 key of
                     None \<Rightarrow> (HttpError msgNoJob 404, w1, 0)
                   | Some hlsDir \<Rightarrow>
                       (let filePath = Join hlsDir fileName
                        in if HasSuffix fileName ''.m3u8''
                           then
                             (case pollLoop (\<lambda>i. playlistReady (fsAt i) filePath) 150 0 of
                                (ready, n) \<Rightarrow>
                                  if \<not> ready then (HttpError ''m3u8 not ready'' 503, w1, 100 * n)
                                  else
                                    (ServeFile
                                       [(''Content-Type'', ''application/vnd.apple.mpegurl''),
                                        (''Cache-Control'', ''no-cache'')]
                                       filePath, w1, 100 * n))
                           else if HasSuffix fileName ''.ts''
                           then
                             (case pollLoop (\<lambda>i. segmentReady (fsAt i) filePath) 300 0 of
                                (ready, n) \<Rightarrow>
                                  if \<not> ready
                                  then (HttpError ''ts segment not ready'' 503, w1, 100 * n)
                                  else (ServeFile [(''Content-Type'', ''video/mp2t'')] filePath,
                                        w1, 100 * n))
                           else (ServeFile [] filePath, w1, 0)))
         | _ \<Rightarrow> (NotFound, w, 0))"

section \<open>Example files and states\<close>

text \<open>Example files: readable, no device errors.\<close>

definition plain_file :: "string \<Rightarrow> fnode" where
  "plain_file bytes = \<lparr>content = bytes, modTime = 0, openable = True, ioerr = (\<lambda>_. False)\<rparr>"

definition box8 :: "string \<Rightarrow> string" where
  "box8 t = [CHR 0x00, CHR 0x00, CHR 0x00, CHR 0x08] @ t"



text \<open>
  Two files with \<open>ftyp\<close>, \<open>mdat\<close>, \<open>moov\<close> in this order: one of exactly 500 MiB,
  one of 499 MiB.
\<close>

definition mdat_first_500 :: fnode where
  "mdat_first_500 =
     plain_file (box8 ''ftyp'' @ [CHR 0x1F, CHR 0x3F, CHR 0xFF, CHR 0xF0] @ ''mdat''
                 @ replicate 524287976 (CHR 0x00) @ box8 ''moov'')"

definition mdat_first_499 :: fnode where
  "mdat_first_499 =
     plain_file (box8 ''ftyp'' @ [CHR 0x1F, CHR 0x2F, CHR 0xFF, CHR 0xF0] @ ''mdat''
                 @ replicate 523239400 (CHR 0x00) @ box8 ''moov'')"

text \<open>
  Two files of exactly 500 MiB: one that opens but whose device fails every read, one
  that does not open.
\<close>

definition unreadable_500 :: fnode where
  "unreadable_500 =
     \<lparr>content = replicate 524288000 (CHR 0x00), modTime = 0, openable = True,
      ioerr = (\<lambda>_. True)\<rparr>"

definition locked_500 :: fnode where
  "locked_500 =
     \<lparr>content = replicate 524288000 (CHR 0x00), modTime = 0, openable = False,
      ioerr = (\<lambda>_. False)\<rparr>"

text \<open>
  A file of exactly 500 MiB with \<open>ftyp\<close>, \<open>mdat\<close>, \<open>moov\<close> in this order, whose
  device fails every read from offset 8 on: the header of \<open>mdat\<close> cannot be read.
\<close>

definition midwalk_500 :: fnode where
  "midwalk_500 =
     \<lparr>content = box8 ''ftyp'' @ [CHR 0x1F, CHR 0x3F, CHR 0xFF, CHR 0xF0] @ ''mdat''
                 @ replicate 524287976 (CHR 0x00) @ box8 ''moov'',
      modTime = 0, openable = True, ioerr = (\<lambda>i. 8 \<le> i)\<rparr>"

text \<open>
  An environment and a state for the examples: one video file, an empty registry, an
  existing cache root. The digest is a parameter of the model; the examples use the
  one path \<open>/v/foo.mkv\<close> with modification time 0, and \<open>md5hex8\<close> is fixed to the
  key of that path.
\<close>

definition env0 :: env where
  "env0 = \<lparr>md5hex8 = (\<lambda>data. ''a2ad71a752564474''), GOOS = ''linux'', ffmpegPath = ''ffmpeg'',
           ffprobePath = ''ffprobe'',
           ffprobe = (\<lambda>args. Some (''streams.stream.0.codec_name='' @ [CHR 0x22] @ ''hevc'' @ [CHR 0x22, CHR 0x0A]))\<rparr>"

definition job0 :: HLSJob where
  "job0 = \<lparr>Dir = [], Cmd = None, Done = False, Cached = False, lastAccess = 0\<rparr>"

definition world0 :: world where
  "world0 =
     \<lparr>hlsCacheDir = ''/home/u/.cache/localcinema/hls'', hlsJobs = Map.empty,
      heap = (\<lambda>a. job0), nextAddr = 0,
      files = [''/v/foo.mkv'' \<mapsto> plain_file ''matroska''],
      dirs = {''/home/u/.cache/localcinema/hls''}, mkdirDenied = (\<lambda>p. False),
      now = 1700000000, trace = []\<rparr>"

definition playlist_done :: string where
  "playlist_done = ''#EXTM3U'' @ [CHR 0x0A] @ ''seg00000.ts'' @ [CHR 0x0A] @ ''#EXT-X-ENDLIST'' @ [CHR 0x0A]"

definition world_cached :: world where
  "world_cached =
     world0\<lparr>files := (files world0)
        (''/home/u/.cache/localcinema/hls/a2ad71a752564474/stream.m3u8'' \<mapsto> plain_file playlist_done)\<rparr>"

definition world_denied :: world where
  "world_denied = world0\<lparr>mkdirDenied := (\<lambda>p. True)\<rparr>"

text \<open>The run of the example: admission, start of the process, exit with status 1.\<close>

definition world_admitted :: world where
  "world_admitted = snd (getOrStartHLS env0 world0 ''/v/foo.mkv'')"

definition world_failed :: world where
  "world_failed = runner_finish (runner_start world_admitted 0 4711) 0 (Exit 1)"

text \<open>The admitted job with its process running and one segment written.\<close>

definition world_partial :: world where
  "world_partial =
     (runner_start world_admitted 0 4711)
       \<lparr>files := (files world_admitted)
          (''/home/u/.cache/localcinema/hls/a2ad71a752564474/seg00000.ts'' \<mapsto> plain_file ''ts'')\<rparr>"

text \<open>The job that ran to the end: the complete playlist on disk, exit status 0.\<close>

definition world_written :: world where
  "world_written =
     (runner_start world_admitted 0 4711)
       \<lparr>files := (files world_admitted)
          (''/home/u/.cache/localcinema/hls/a2ad71a752564474/stream.m3u8'' \<mapsto> plain_file playlist_done)\<rparr>"

definition world_done :: world where
  "world_done = runner_finish world_written 0 (Exit 0)"

text \<open>The completed job fifty seconds after its admission.\<close>

definition world_later :: world where
  "world_later = world_done\<lparr>now := 1700000050\<rparr>"

text \<open>A playlist with its first segment listed, and one with no segment yet.\<close>

definition playlist_live :: string where
  "playlist_live = ''#EXTM3U'' @ [CHR 0x0A] @ ''seg00000.ts'' @ [CHR 0x0A]"

text \<open>
  A playlist file that does not exist at the first attempt, exists without a segment at
  the second, and lists its first segment from the third attempt on; and one that exists
  without a segment at every attempt.
\<close>

definition playlist_empty :: string where
  "playlist_empty = ''#EXTM3U'' @ [CHR 0x0A]"

definition fs_growing :: "nat \<Rightarrow> fsys" where
  "fs_growing i =
     (if i = 0 then files world0
      else (files world0)
             (''/home/u/.cache/localcinema/hls/a2ad71a752564474/stream.m3u8''
                \<mapsto> plain_file (if i < 2 then playlist_empty else playlist_live)))"

definition fs_stalled :: "nat \<Rightarrow> fsys" where
  "fs_stalled i =
     (files world0)
       (''/home/u/.cache/localcinema/hls/a2ad71a752564474/stream.m3u8''
          \<mapsto> plain_file playlist_empty)"

section \<open>The inspector and its walk\<close>

lemma sint_of_nat_64:
  assumes "n < 2 ^ 64"
  shows "sint (of_nat n :: 64 word) = (if n < 2 ^ 63 then int n else int n - 2 ^ 64)"
proof -
  have bound: "int n < 2 ^ 64" using assms by (metis of_nat_less_iff of_nat_numeral of_nat_power)
  have s: "sint (of_nat n :: 64 word) = signed_take_bit 63 (int n)"
    by (simp add: signed_of_nat)
  show ?thesis
  proof (cases "n < 2 ^ 63")
    case True
    then have "int n < 2 ^ 63" by (metis of_nat_less_iff of_nat_numeral of_nat_power)
    then have "signed_take_bit 63 (int n) = int n"
      by (simp add: signed_take_bit_int_eq_self)
    with s True show ?thesis by simp
  next
    case False
    then have ge: "2 ^ 63 \<le> int n" by (metis not_less of_nat_le_iff of_nat_numeral of_nat_power)
    have "signed_take_bit 63 (int n) = take_bit (Suc 63) (int n + 2 ^ 63) - 2 ^ 63"
      by (rule signed_take_bit_eq_take_bit_shift)
    also have "take_bit (Suc 63) (int n + 2 ^ 63) = (int n + 2 ^ 63) mod 2 ^ 64"
      by (simp add: take_bit_eq_mod)
    also have "(int n + 2 ^ 63) mod 2 ^ 64 = int n + 2 ^ 63 - 2 ^ 64"
      using ge bound by (intro int_mod_pos_eq [where q = 1]) simp_all
    finally show ?thesis using s False by simp
  qed
qed

lemma foldl_be_bound:
  fixes a :: nat
  shows "a < 256 ^ k \<Longrightarrow> foldl (\<lambda>a c. a * 256 + of_char c) a bs < 256 ^ (k + length bs)"
proof (induction bs arbitrary: a k)
  case Nil
  then show ?case by simp
next
  case (Cons c bs)
  have c: "(of_char c :: nat) < 256" by (simp add: of_char_def)
  from Cons.prems have "Suc a \<le> 256 ^ k" by simp
  then have "Suc a * 256 \<le> 256 ^ k * 256" by (rule mult_le_mono1)
  then have "a * 256 + 256 \<le> 256 ^ k * 256" by simp
  with c have "a * 256 + of_char c < 256 ^ k * 256" by linarith
  then have "a * 256 + of_char c < 256 ^ Suc k" by (simp add: mult.commute)
  from Cons.IH [OF this] show ?case by simp
qed

lemma be_nat_bound: "be_nat bs < 256 ^ length bs"
  using foldl_be_bound [of 0 0 bs] by (simp add: be_nat_def)

lemma read_bytes_Some_le: "read_bytes f off n = Some buf \<Longrightarrow> off + n \<le> length (content f)"
  by (simp add: read_bytes_def split: if_splits)

lemma read_bytes_Some_length: "read_bytes f off n = Some buf \<Longrightarrow> length buf = n"
  by (auto simp add: read_bytes_def split: if_splits)

lemma int_lt_pow: "(n :: nat) < 2 ^ k \<Longrightarrow> int n < 2 ^ k"
  by (metis of_nat_less_iff of_nat_numeral of_nat_power)

lemma ReadAt_of_nat:
  assumes "off < 2 ^ 63"
  shows "ReadAt f (of_nat off) n = read_bytes f off n"
proof -
  from assms have "off < 2 ^ 64" by (rule less_trans) simp
  with assms have "sint (of_nat off :: 64 word) = int off" by (simp add: sint_of_nat_64)
  then show ?thesis by (simp add: ReadAt_def)
qed

lemma loop_negative: "sint offset < 0 \<Longrightarrow> hasMoovAtFront_loop f offset = True"
  by (subst hasMoovAtFront_loop.simps) (simp add: ReadAt_def)

lemma walk_past_end: "length (content f) < off + 8 \<Longrightarrow> walk_boxes_int64 f off = []"
  by (subst walk_boxes_int64.simps) (simp add: read_bytes_def)

lemma word_of_sint_nonneg:
  fixes w :: "64 word"
  assumes "0 \<le> sint w"
  shows "of_nat (nat (sint w)) = w"
proof -
  have "(of_nat (nat (sint w)) :: 64 word) = of_int (int (nat (sint w)))" by simp
  also have "\<dots> = of_int (sint w)" using assms by simp
  also have "\<dots> = w" by simp
  finally show ?thesis .
qed

lemma of_nat_eq_1_iff:
  assumes "n < 2 ^ 63"
  shows "((of_nat n :: 64 word) = 1) = (n = 1)"
proof
  assume "(of_nat n :: 64 word) = 1"
  then have "sint (of_nat n :: 64 word) = 1" by simp
  moreover from assms have "n < 2 ^ 64" by (rule less_trans) simp
  ultimately show "n = 1" using assms by (simp add: sint_of_nat_64)
qed simp

lemma sint_eq_0_iff64: "(sint (w :: 64 word) = 0) = (w = 0)"
  by (metis sint_0 word_of_sint_nonneg order_refl)

lemma sint_be64:
  assumes "length b = 8"
  shows "sint (of_nat (be_nat b) :: 64 word) = be_int64 b"
proof -
  have "be_nat b < 256 ^ 8" using be_nat_bound [of b] assms by simp
  then have "be_nat b < 2 ^ 64" by simp
  then show ?thesis by (simp add: sint_of_nat_64 be_int64_def Let_def int_lt_pow)
qed

lemma walk_boxes_int64_step:
  assumes "read_bytes f off 8 = Some hdr"
    and "sopt = (if be_nat (take 4 hdr) = 1
                 then map_option be_int64 (read_bytes f (off + 8) 8)
                 else Some (int (be_nat (take 4 hdr))))"
  shows "walk_boxes_int64 f off =
     (case sopt of
        None \<Rightarrow> []
      | Some s \<Rightarrow>
          (let size = (if s = 0 then int (length (content f)) - int off else s)
           in if size < 8 then []
              else take 4 (drop 4 hdr) # walk_boxes_int64 f (off + nat size)))"
  by (subst walk_boxes_int64.simps) (simp only: assms option.case Let_def)

lemma hasMoovAtFront_loop_step:
  assumes "ReadAt f offset 8 = Some buf"
    and "wopt = (if (of_nat (be_nat (take 4 buf)) :: 64 word) = 1
                 then map_option (\<lambda>buf64. of_nat (be_nat buf64)) (ReadAt f (offset + 8) 8)
                 else Some (of_nat (be_nat (take 4 buf))))"
  shows "hasMoovAtFront_loop f offset =
     (case wopt of
        None \<Rightarrow> True
      | Some size1 \<Rightarrow>
          (let size2 = (if size1 = 0 then Size f - offset else size1)
           in if sint size2 < 8 then True
              else if take 4 (drop 4 buf) = ''moov'' then True
              else if take 4 (drop 4 buf) = ''mdat'' then False
              else hasMoovAtFront_loop f (offset + size2)))"
  by (subst hasMoovAtFront_loop.simps) (simp only: assms option.case Let_def)

lemma loop_eq_walk:
  "length (content f) < 2 ^ 63 \<Longrightarrow> off < 2 ^ 63 \<Longrightarrow>
   hasMoovAtFront_loop f (of_nat off) = spec_moov_first (walk_boxes_int64 f off)"
proof (induction f off rule: walk_boxes_int64.induct)
  case (1 f off)
  note len = \<open>length (content f) < 2 ^ 63\<close> and off = \<open>off < 2 ^ 63\<close>
  show ?case
  proof (cases "read_bytes f off 8")
    case None
    then show ?thesis
      by (subst hasMoovAtFront_loop.simps, subst walk_boxes_int64.simps)
         (simp add: ReadAt_of_nat [OF off] spec_moov_first_def)
  next
    case hdr: (Some hdr)
    define size32 where "size32 = be_nat (take 4 hdr)"
    define boxType where "boxType = take 4 (drop 4 hdr)"
    define sopt where "sopt = (if be_nat (take 4 hdr) = 1
                               then map_option be_int64 (read_bytes f (off + 8) 8)
                               else Some (int (be_nat (take 4 hdr))))"
    define wopt :: "64 word option" where
      "wopt = (if (of_nat (be_nat (take 4 hdr)) :: 64 word) = 1
               then map_option (\<lambda>buf64. of_nat (be_nat buf64)) (ReadAt f (of_nat off + 8) 8)
               else Some (of_nat (be_nat (take 4 hdr))))"
    from hdr have rd: "ReadAt f (of_nat off) 8 = Some hdr" by (simp add: ReadAt_of_nat [OF off])
    note W = walk_boxes_int64_step [OF hdr sopt_def]
    note L = hasMoovAtFront_loop_step [OF rd wopt_def]
    from hdr have off8: "off + 8 \<le> length (content f)" by (rule read_bytes_Some_le)
    have "size32 < 256 ^ length (take 4 hdr)" unfolding size32_def by (rule be_nat_bound)
    also have "\<dots> \<le> 256 ^ 4" by (rule power_increasing) simp_all
    finally have s32: "size32 < 2 ^ 32" by simp
    then have s63: "size32 < 2 ^ 63" by (rule less_trans) simp
    then have s64: "size32 < 2 ^ 64" by (rule less_trans) simp
    have one: "((of_nat size32 :: 64 word) = 1) = (size32 = 1)" using s63 by (rule of_nat_eq_1_iff)
    have off8': "off + 8 < 2 ^ 63" using off8 len by simp
    have rd8: "ReadAt f (of_nat off + 8) 8 = read_bytes f (off + 8) 8"
      using ReadAt_of_nat [OF off8', of f 8] by simp
    have rel: "map_option sint wopt = sopt"
    proof (cases "size32 = 1")
      case True
      show ?thesis
      proof (cases "read_bytes f (off + 8) 8")
        case None
        then show ?thesis using True
          by (simp add: wopt_def sopt_def rd8 size32_def [symmetric])
      next
        case (Some b)
        then have "length b = 8" by (rule read_bytes_Some_length)
        then have "sint (of_nat (be_nat b) :: 64 word) = be_int64 b" by (rule sint_be64)
        then show ?thesis using True Some
          by (simp add: wopt_def sopt_def rd8 size32_def [symmetric])
      qed
    next
      case False
      then show ?thesis using s63 s64
        by (simp add: wopt_def sopt_def one sint_of_nat_64 size32_def [symmetric])
    qed
    show ?thesis
    proof (cases sopt)
      case None
      with rel have "wopt = None" by simp
      with None show ?thesis by (simp add: W L spec_moov_first_def)
    next
      case (Some s)
      with rel obtain size1 where w: "wopt = Some size1" and ss: "sint size1 = s" by auto
      define size where "size = (if s = 0 then int (length (content f)) - int off else s)"
      define size2 where "size2 = (if size1 = 0 then Size f - of_nat off else size1)"
      have W': "walk_boxes_int64 f off =
          (if size < 8 then [] else boxType # walk_boxes_int64 f (off + nat size))"
        unfolding W Some size_def boxType_def by (simp add: Let_def)
      have L': "hasMoovAtFront_loop f (of_nat off) =
          (if sint size2 < 8 then True
           else if boxType = ''moov'' then True
           else if boxType = ''mdat'' then False
           else hasMoovAtFront_loop f (of_nat off + size2))"
        unfolding L w size2_def boxType_def by (simp add: Let_def)
      have d: "Size f - of_nat off = (of_nat (length (content f) - off) :: 64 word)"
        using off8 by (simp add: Size_def)
      have lt: "length (content f) - off < 2 ^ 63" using len by simp
      then have lt64: "length (content f) - off < 2 ^ 64" by (rule less_trans) simp
      have "sint (Size f - of_nat off) = sint (of_nat (length (content f) - off) :: 64 word)"
        by (simp only: d)
      also have "\<dots> = int (length (content f) - off)"
        by (simp only: sint_of_nat_64 [OF lt64] lt if_True)
      also have "\<dots> = int (length (content f)) - int off"
        using off8 by (simp add: of_nat_diff)
      finally have "sint (Size f - of_nat off) = int (length (content f)) - int off" .
      then have sz: "sint size2 = size"
        using ss by (auto simp add: size2_def size_def sint_eq_0_iff64)
      show ?thesis
      proof (cases "size < 8")
        case True
        with sz show ?thesis by (simp add: W' L' spec_moov_first_def)
      next
        case False
        then have nn: "0 \<le> sint size2" using sz by simp
        have next_off: "of_nat off + size2 = (of_nat (off + nat size) :: 64 word)"
          using word_of_sint_nonneg [OF nn] sz by simp
        have tail: "hasMoovAtFront_loop f (of_nat off + size2)
            = spec_moov_first (walk_boxes_int64 f (off + nat size))"
        proof (cases "off + nat size < 2 ^ 63")
          case True
          show ?thesis
            unfolding next_off
            using "1.IH" [OF hdr refl refl Some [unfolded sopt_def] size_def False len True] .
        next
          case big: False
          have "size < 2 ^ 63" using sint_lt [of size2] sz by simp
          then have "nat size < 2 ^ 63" using False by (simp add: nat_less_iff)
          with off have lt64: "off + nat size < 2 ^ 64" by simp
          have "sint (of_nat (off + nat size) :: 64 word) = int (off + nat size) - 2 ^ 64"
            by (simp only: sint_of_nat_64 [OF lt64] big if_False)
          moreover have "int (off + nat size) < 2 ^ 64" using lt64 by (rule int_lt_pow)
          ultimately have "sint (of_nat (off + nat size) :: 64 word) < 0" by linarith
          then have "hasMoovAtFront_loop f (of_nat (off + nat size)) = True" by (rule loop_negative)
          moreover have "length (content f) < off + nat size + 8" using big len by simp
          then have "walk_boxes_int64 f (off + nat size) = []" by (rule walk_past_end)
          ultimately show ?thesis unfolding next_off by (simp add: spec_moov_first_def)
        qed
        from False sz tail show ?thesis
          by (simp add: W' L' spec_moov_first_def)
      qed
    qed
  qed
qed

section \<open>Claims about the inspector and the classifier\<close>

lemma list_ex_never: "list_ex (\<lambda>_. False) xs = False"
  by (induction xs) simp_all










text \<open>
  C2. When the size \<open>B\<close> of the file is obtainable, the classifier serves directly
  (no HLS) exactly when the lower-cased extension is \<open>.mp4\<close> or \<open>.m4v\<close> and
  (\<open>B\<close> is below 500 MiB or the inspector returns true).
\<close>

theorem direct_serve_iff:
  assumes "Stat fs p = Some (B, T)"
  shows "(\<not> useHLS fs p) =
         (ToLower (Ext p) \<in> {''.mp4'', ''.m4v''} \<and> (B < 500 * 1024 * 1024 \<or> hasMoovAtFront fs p))"
  using assms
  by (auto simp add: useHLS_def needsTranscode_def needsStreamingMp4_def largeMp4Threshold_def Let_def)

lemma ext_mp4: "ToLower (Ext ''/v/a.mp4'') = ''.mp4''"
  by code_simp

lemma size_500: "length (content mdat_first_500) = 524288000"
  by (simp add: mdat_first_500_def plain_file_def box8_def)

lemma size_499: "length (content mdat_first_499) = 523239424"
  by (simp add: mdat_first_499_def plain_file_def box8_def)

lemma inspect_500: "hasMoovAtFront [''/v/a.mp4'' \<mapsto> mdat_first_500] ''/v/a.mp4'' = False"
  by (simp add: hasMoovAtFront_def os_Open_def hasMoovAtFront_loop.simps ReadAt_def
      read_bytes_def list_ex_never be_nat_def mdat_first_500_def plain_file_def box8_def Size_def)

lemma inspect_499: "hasMoovAtFront [''/v/a.mp4'' \<mapsto> mdat_first_499] ''/v/a.mp4'' = False"
  by (simp add: hasMoovAtFront_def os_Open_def hasMoovAtFront_loop.simps ReadAt_def
      read_bytes_def list_ex_never be_nat_def mdat_first_499_def plain_file_def box8_def Size_def)

text \<open>
  The boundary: the file of exactly 500 MiB with \<open>moov\<close> behind \<open>mdat\<close> needs HLS,
  the one of 499 MiB is served directly.
\<close>

theorem direct_serve_iff_witness:
  "Stat [''/v/a.mp4'' \<mapsto> mdat_first_500] ''/v/a.mp4'' = Some (500 * 1024 * 1024, 0)
   \<and> useHLS [''/v/a.mp4'' \<mapsto> mdat_first_500] ''/v/a.mp4''
   \<and> Stat [''/v/a.mp4'' \<mapsto> mdat_first_499] ''/v/a.mp4'' = Some (499 * 1024 * 1024, 0)
   \<and> \<not> useHLS [''/v/a.mp4'' \<mapsto> mdat_first_499] ''/v/a.mp4''"
proof -
  have a: "Stat [''/v/a.mp4'' \<mapsto> mdat_first_500] ''/v/a.mp4'' = Some (500 * 1024 * 1024, 0)"
    by (simp add: Stat_def size_500) (simp add: mdat_first_500_def plain_file_def)
  have b: "Stat [''/v/a.mp4'' \<mapsto> mdat_first_499] ''/v/a.mp4'' = Some (499 * 1024 * 1024, 0)"
    by (simp add: Stat_def size_499) (simp add: mdat_first_499_def plain_file_def)
  from direct_serve_iff [OF a] direct_serve_iff [OF b] a b show ?thesis
    by (simp add: ext_mp4 inspect_500 inspect_499)
qed

lemma list_ex_always: "list_ex (\<lambda>_. True) xs = (xs \<noteq> [])"
  by (cases xs) simp_all

text \<open>
  C8 as stated fails for a read error: the \<open>.mp4\<close> file of 500 MiB opens, the first
  read of the walk fails, the walk ends with true and the file is served directly.
\<close>

theorem read_error_direct_serve_counterexample:
  "Stat [''/v/a.mp4'' \<mapsto> unreadable_500] ''/v/a.mp4'' = Some (500 * 1024 * 1024, 0)
   \<and> ToLower (Ext ''/v/a.mp4'') = ''.mp4''
   \<and> os_Open [''/v/a.mp4'' \<mapsto> unreadable_500] ''/v/a.mp4'' = Some unreadable_500
   \<and> ReadAt unreadable_500 0 8 = None
   \<and> \<not> useHLS [''/v/a.mp4'' \<mapsto> unreadable_500] ''/v/a.mp4''"
  by (simp add: ext_mp4 Stat_def os_Open_def ReadAt_def read_bytes_def unreadable_500_def
      useHLS_def needsTranscode_def needsStreamingMp4_def hasMoovAtFront_def
      hasMoovAtFront_loop.simps largeMp4Threshold_def list_ex_always)

lemma midwalk_reads:
  "read_bytes midwalk_500 0 8 = Some (box8 ''ftyp'') \<and> read_bytes midwalk_500 8 8 = None"
proof -
  have "\<not> list_ex (\<lambda>i. 8 \<le> i) [0..<8]" by (simp add: list_ex_iff)
  moreover have "list_ex (\<lambda>i. 8 \<le> i) [8..<16]" by (auto simp add: list_ex_iff)
  ultimately show ?thesis by (simp add: read_bytes_def midwalk_500_def box8_def)
qed

lemma walk_midwalk: "walk_boxes_int64 midwalk_500 0 = [''ftyp'']"
  using midwalk_reads by (simp add: walk_boxes_int64.simps box8_def be_nat_def)

text \<open>
  C8, amended. For an \<open>.mp4\<close>/\<open>.m4v\<close> file of at least 500 MiB: when the file does
  not open, it is routed to HLS. When it opens, a failed read only ends the box walk:
  the file is served directly when the read of the first header fails, and in general
  it is routed to HLS exactly when the walk, up to where it ended, has met \<open>mdat\<close>
  before any \<open>moov\<close>.
\<close>

theorem unreadable_layout_routing:
  assumes "Stat fs p = Some (B, T)" and "500 * 1024 * 1024 \<le> B"
    and "ToLower (Ext p) \<in> {''.mp4'', ''.m4v''}"
  shows "(os_Open fs p = None \<longrightarrow> useHLS fs p)
       \<and> (\<forall>f. os_Open fs p = Some f \<longrightarrow> ReadAt f 0 8 = None \<longrightarrow> \<not> useHLS fs p)
       \<and> (\<forall>f. os_Open fs p = Some f \<longrightarrow> length (content f) < 2 ^ 63 \<longrightarrow>
            useHLS fs p = (\<not> spec_moov_first (walk_boxes_int64 f 0)))"
proof -
  from assms have u: "useHLS fs p = (\<not> hasMoovAtFront fs p)"
    by (auto simp add: useHLS_def needsTranscode_def needsStreamingMp4_def
        largeMp4Threshold_def Let_def)
  have a: "os_Open fs p = None \<longrightarrow> useHLS fs p"
    by (simp add: u hasMoovAtFront_def)
  have b: "\<forall>f. os_Open fs p = Some f \<longrightarrow> ReadAt f 0 8 = None \<longrightarrow> \<not> useHLS fs p"
    by (simp add: u hasMoovAtFront_def hasMoovAtFront_loop.simps)
  have c: "\<forall>f. os_Open fs p = Some f \<longrightarrow> length (content f) < 2 ^ 63 \<longrightarrow>
            useHLS fs p = (\<not> spec_moov_first (walk_boxes_int64 f 0))"
  proof (intro allI impI)
    fix f
    assume o: "os_Open fs p = Some f" and l: "length (content f) < 2 ^ 63"
    have "hasMoovAtFront_loop f (of_nat 0) = spec_moov_first (walk_boxes_int64 f 0)"
      using l by (intro loop_eq_walk) simp_all
    with o show "useHLS fs p = (\<not> spec_moov_first (walk_boxes_int64 f 0))"
      by (simp add: u hasMoovAtFront_def)
  qed
  from a b c show ?thesis by blast
qed

text \<open>
  The file that does not open (HLS), the file whose reads all fail (direct), and the
  file whose \<open>mdat\<close> header cannot be read: the walk meets \<open>ftyp\<close> only, and the
  file is served directly.
\<close>

theorem unreadable_layout_routing_witness:
  "useHLS [''/v/a.mp4'' \<mapsto> locked_500] ''/v/a.mp4''
   \<and> \<not> useHLS [''/v/a.mp4'' \<mapsto> unreadable_500] ''/v/a.mp4''
   \<and> read_bytes midwalk_500 8 8 = None
   \<and> walk_boxes_int64 midwalk_500 0 = [''ftyp'']
   \<and> \<not> useHLS [''/v/a.mp4'' \<mapsto> midwalk_500] ''/v/a.mp4''"
proof -
  have e: "ToLower (Ext ''/v/a.mp4'') \<in> {''.mp4'', ''.m4v''}" by (simp add: ext_mp4)
  have s1: "Stat [''/v/a.mp4'' \<mapsto> locked_500] ''/v/a.mp4'' = Some (524288000, 0)"
    by (simp add: Stat_def locked_500_def)
  have o1: "os_Open [''/v/a.mp4'' \<mapsto> locked_500] ''/v/a.mp4'' = None"
    by (simp add: os_Open_def locked_500_def)
  have s2: "Stat [''/v/a.mp4'' \<mapsto> unreadable_500] ''/v/a.mp4'' = Some (524288000, 0)"
    by (simp add: Stat_def unreadable_500_def)
  have o2: "os_Open [''/v/a.mp4'' \<mapsto> unreadable_500] ''/v/a.mp4'' = Some unreadable_500"
    by (simp add: os_Open_def unreadable_500_def)
  have r2: "ReadAt unreadable_500 0 8 = None"
    by (simp add: ReadAt_def read_bytes_def unreadable_500_def list_ex_always)
  have s3: "Stat [''/v/a.mp4'' \<mapsto> midwalk_500] ''/v/a.mp4'' = Some (524288000, 0)"
    by (simp add: Stat_def midwalk_500_def box8_def)
  have o3: "os_Open [''/v/a.mp4'' \<mapsto> midwalk_500] ''/v/a.mp4'' = Some midwalk_500"
    by (simp add: os_Open_def midwalk_500_def)
  have l3: "length (content midwalk_500) < 2 ^ 63"
    by (simp add: midwalk_500_def box8_def)
  from unreadable_layout_routing [OF s1 _ e] unreadable_layout_routing [OF s2 _ e]
       unreadable_layout_routing [OF s3 _ e] o1 o2 r2 o3 l3 walk_midwalk midwalk_reads
  show ?thesis by (simp add: spec_moov_first_def)
qed

section \<open>Claims about the registry\<close>

lemma join_examples:
  "Join ''/home/u/.cache/localcinema/hls'' ''a2ad71a752564474''
     = ''/home/u/.cache/localcinema/hls/a2ad71a752564474''"
  "Join ''/home/u/.cache/localcinema/hls/a2ad71a752564474'' ''stream.m3u8''
     = ''/home/u/.cache/localcinema/hls/a2ad71a752564474/stream.m3u8''"
  "Join ''/home/u/.cache/localcinema/hls/a2ad71a752564474'' ''seg00000.ts''
     = ''/home/u/.cache/localcinema/hls/a2ad71a752564474/seg00000.ts''"
  by code_simp+

lemma getOrStartHLS_resident:
  "hlsJobs w (hlsJobKey e (files w) P) = Some job \<Longrightarrow> getOrStartHLS e w P = (Inr job, w)"
  by (simp add: getOrStartHLS_def Let_def)

lemma getOrStartHLS_adopt:
  assumes "hlsJobs w (hlsJobKey e (files w) P) = None"
    and "isCacheComplete (files w) (Join (hlsCacheDir w) (hlsJobKey e (files w) P))"
  shows "getOrStartHLS e w P =
     (Inr (nextAddr w),
      w\<lparr>heap := (heap w)(nextAddr w :=
             \<lparr>Dir = Join (hlsCacheDir w) (hlsJobKey e (files w) P), Cmd = None, Done = True,
              Cached = True, lastAccess = now w\<rparr>),
        nextAddr := Suc (nextAddr w),
        hlsJobs := (hlsJobs w)(hlsJobKey e (files w) P \<mapsto> nextAddr w)\<rparr>)"
  using assms by (simp add: getOrStartHLS_def Let_def new_job_def)

lemma key0: "hlsJobKey env0 fs P = ''a2ad71a752564474''"
  by (simp add: hlsJobKey_def env0_def Let_def)

text \<open>
  C7. When the key of the path has no registry entry and \<open>stream.m3u8\<close> in the key's
  cache directory contains \<open>#EXT-X-ENDLIST\<close>, \<open>getOrStartHLS\<close> inserts and returns a
  job with no process handle, \<open>Cached\<close> true and \<open>Done\<close> closed, and runs no
  external tool (the trace of external effects is unchanged).
\<close>

theorem getOrStartHLS_cache_hit:
  assumes "hlsJobs w (hlsJobKey e (files w) P) = None"
    and "ReadFile (files w)
           (Join (Join (hlsCacheDir w) (hlsJobKey e (files w) P)) ''stream.m3u8'') = Some data"
    and "Contains data ''#EXT-X-ENDLIST''"
  shows "\<exists>job w'. getOrStartHLS e w P = (Inr job, w')
           \<and> hlsJobs w' = (hlsJobs w)(hlsJobKey e (files w) P \<mapsto> job)
           \<and> Dir (heap w' job) = Join (hlsCacheDir w) (hlsJobKey e (files w) P)
           \<and> Cmd (heap w' job) = None
           \<and> Cached (heap w' job)
           \<and> Done (heap w' job)
           \<and> trace w' = trace w"
proof -
  from assms(2,3)
  have "isCacheComplete (files w) (Join (hlsCacheDir w) (hlsJobKey e (files w) P))"
    by (simp add: isCacheComplete_def Let_def)
  from getOrStartHLS_adopt [OF assms(1) this] show ?thesis by simp
qed

lemma contains_endlist: "Contains playlist_done ''#EXT-X-ENDLIST''"
  by (simp add: playlist_done_def)

text \<open>The state with a complete playlist on disk: the job adopted is the one at address 0.\<close>

theorem getOrStartHLS_cache_hit_witness:
  "fst (getOrStartHLS env0 world_cached ''/v/foo.mkv'') = Inr 0
   \<and> Cmd (heap (snd (getOrStartHLS env0 world_cached ''/v/foo.mkv'')) 0) = None
   \<and> Cached (heap (snd (getOrStartHLS env0 world_cached ''/v/foo.mkv'')) 0)
   \<and> Done (heap (snd (getOrStartHLS env0 world_cached ''/v/foo.mkv'')) 0)
   \<and> trace (snd (getOrStartHLS env0 world_cached ''/v/foo.mkv'')) = []"
proof -
  have a: "hlsJobs world_cached (hlsJobKey env0 (files world_cached) ''/v/foo.mkv'') = None"
    by (simp add: world_cached_def world0_def)
  have b: "ReadFile (files world_cached)
       (Join (Join (hlsCacheDir world_cached) (hlsJobKey env0 (files world_cached) ''/v/foo.mkv''))
          ''stream.m3u8'') = Some playlist_done"
    by (simp add: key0 world_cached_def world0_def join_examples ReadFile_def os_Open_def
        plain_file_def list_ex_never)
  from getOrStartHLS_cache_hit [OF a b contains_endlist]
  obtain job w' where r: "getOrStartHLS env0 world_cached ''/v/foo.mkv'' = (Inr job, w')"
    and p: "Cmd (heap w' job) = None" "Cached (heap w' job)" "Done (heap w' job)"
       "trace w' = trace world_cached"
    by blast
  have "nextAddr world_cached = 0" "trace world_cached = []"
    by (simp_all add: world_cached_def world0_def)
  moreover have "isCacheComplete (files world_cached)
      (Join (hlsCacheDir world_cached) (hlsJobKey env0 (files world_cached) ''/v/foo.mkv''))"
    using b contains_endlist by (simp add: isCacheComplete_def Let_def)
  ultimately have "job = 0" using r getOrStartHLS_adopt [OF a] by simp
  with r p \<open>trace world_cached = []\<close> show ?thesis by simp
qed

text \<open>
  C10. When the creation of the cache directory fails, \<open>getOrStartHLS\<close> returns the
  error and leaves the registry and the jobs as they were; no probe runs and no runner
  is started (the trace is unchanged), and the key still has no entry, so a later call
  is a fresh admission.
\<close>

theorem getOrStartHLS_mkdir_failure:
  assumes "hlsJobs w (hlsJobKey e (files w) P) = None"
    and "\<not> isCacheComplete (files w) (Join (hlsCacheDir w) (hlsJobKey e (files w) P))"
    and "MkdirAll w (Join (hlsCacheDir w) (hlsJobKey e (files w) P)) = None"
  shows "fst (getOrStartHLS e w P) = Inl MkdirError
       \<and> hlsJobs (snd (getOrStartHLS e w P)) = hlsJobs w
       \<and> heap (snd (getOrStartHLS e w P)) = heap w
       \<and> trace (snd (getOrStartHLS e w P)) = trace w
       \<and> hlsJobs (snd (getOrStartHLS e w P))
            (hlsJobKey e (files (snd (getOrStartHLS e w P))) P) = None"
  using assms by (simp add: getOrStartHLS_def Let_def)

text \<open>The state where the operating system refuses every directory.\<close>

theorem getOrStartHLS_mkdir_failure_witness:
  "MkdirAll world_denied ''/home/u/.cache/localcinema/hls/a2ad71a752564474'' = None
   \<and> fst (getOrStartHLS env0 world_denied ''/v/foo.mkv'') = Inl MkdirError
   \<and> hlsJobs (snd (getOrStartHLS env0 world_denied ''/v/foo.mkv'')) = Map.empty
   \<and> trace (snd (getOrStartHLS env0 world_denied ''/v/foo.mkv'')) = []"
proof -
  have a: "hlsJobs world_denied (hlsJobKey env0 (files world_denied) ''/v/foo.mkv'') = None"
    by (simp add: world_denied_def world0_def)
  have b: "\<not> isCacheComplete (files world_denied)
      (Join (hlsCacheDir world_denied) (hlsJobKey env0 (files world_denied) ''/v/foo.mkv''))"
    by (simp add: key0 isCacheComplete_def world_denied_def world0_def join_examples ReadFile_def
        os_Open_def)
  have c: "MkdirAll world_denied
      (Join (hlsCacheDir world_denied) (hlsJobKey env0 (files world_denied) ''/v/foo.mkv'')) = None"
    by (simp add: key0 MkdirAll_def world_denied_def world0_def join_examples)
  have d: "MkdirAll world_denied ''/home/u/.cache/localcinema/hls/a2ad71a752564474'' = None"
    by (simp add: MkdirAll_def world_denied_def world0_def)
  from getOrStartHLS_mkdir_failure [OF a b c] d show ?thesis
    by (simp add: world_denied_def world0_def)
qed

lemma RemoveAll_fields [simp]:
  "hlsJobs (RemoveAll w d) = hlsJobs w"
  "heap (RemoveAll w d) = heap w"
  "trace (RemoveAll w d) = trace w"
  "nextAddr (RemoveAll w d) = nextAddr w"
  "hlsCacheDir (RemoveAll w d) = hlsCacheDir w"
  "now (RemoveAll w d) = now w"
  by (simp_all add: RemoveAll_def)

lemma RemoveAll_gone:
  "under d p \<Longrightarrow> files (RemoveAll w d) p = None \<and> p \<notin> dirs (RemoveAll w d)"
  by (simp add: RemoveAll_def)

lemma RemoveAll_other:
  "\<not> under d p \<Longrightarrow> files (RemoveAll w d) p = files w p"
  by (simp add: RemoveAll_def)

lemma runner_finish_registry [simp]: "hlsJobs (runner_finish w job r) = hlsJobs w"
  by (simp add: runner_finish_def Let_def)

lemma runner_finish_trace [simp]: "trace (runner_finish w job r) = trace w"
  by (simp add: runner_finish_def Let_def)

lemma runner_finish_Done [simp]: "Done (heap (runner_finish w job r) job)"
  by (simp add: runner_finish_def Let_def)

lemma runner_finish_failed_Cached:
  "r \<noteq> Exit 0 \<Longrightarrow> Cached (heap (runner_finish w job r) job) = Cached (heap w job)"
  by (simp add: runner_finish_def Let_def)

lemma admitted_registry: "hlsJobs world_admitted = [''a2ad71a752564474'' \<mapsto> 0]"
  by (simp add: world_admitted_def getOrStartHLS_def key0 world0_def Let_def isCacheComplete_def
      ReadFile_def os_Open_def join_examples MkdirAll_def new_job_def)

lemma admitted_result: "fst (getOrStartHLS env0 world0 ''/v/foo.mkv'') = Inr 0"
  by (simp add: getOrStartHLS_def key0 world0_def Let_def isCacheComplete_def
      ReadFile_def os_Open_def join_examples MkdirAll_def new_job_def)

lemma admitted_job:
  "Dir (heap world_admitted 0) = ''/home/u/.cache/localcinema/hls/a2ad71a752564474''
   \<and> Cmd (heap world_admitted 0) \<noteq> None \<and> \<not> Cached (heap world_admitted 0)
   \<and> \<not> Done (heap world_admitted 0)"
  by (simp add: world_admitted_def getOrStartHLS_def key0 world0_def Let_def isCacheComplete_def
      ReadFile_def os_Open_def join_examples MkdirAll_def new_job_def)

lemma runner_start_fields [simp]:
  "hlsJobs (runner_start w job pid) = hlsJobs w"
  "Cached (heap (runner_start w job pid) a) = Cached (heap w a)"
  "Done (heap (runner_start w job pid) a) = Done (heap w a)"
  "Dir (heap (runner_start w job pid) a) = Dir (heap w a)"
  by (simp_all add: runner_start_def split: option.splits)

text \<open>
  C1 as stated fails: after the admission of \<open>/v/foo.mkv\<close>, the start of its process
  and its exit with status 1, the job is still registered under the key, closed and not
  cached; the next \<open>getOrStartHLS\<close> for the path returns this job (address 0, the one
  the first call returned) and adds nothing to the trace: no runner is started.
\<close>

theorem zombie_job_counterexample:
  "fst (getOrStartHLS env0 world0 ''/v/foo.mkv'') = Inr 0
   \<and> hlsJobs world_failed (hlsJobKey env0 (files world_failed) ''/v/foo.mkv'') = Some 0
   \<and> Done (heap world_failed 0)
   \<and> \<not> Cached (heap world_failed 0)
   \<and> fst (getOrStartHLS env0 world_failed ''/v/foo.mkv'') = Inr 0
   \<and> trace (snd (getOrStartHLS env0 world_failed ''/v/foo.mkv'')) = trace world_failed"
proof -
  have reg: "hlsJobs world_failed (hlsJobKey env0 (files world_failed) ''/v/foo.mkv'') = Some 0"
    by (simp add: world_failed_def key0 admitted_registry)
  have "Done (heap world_failed 0)" by (simp add: world_failed_def)
  moreover have "\<not> Cached (heap world_failed 0)"
    using admitted_job by (simp add: world_failed_def runner_finish_failed_Cached)
  ultimately show ?thesis
    using reg admitted_result getOrStartHLS_resident [OF reg] by simp
qed

text \<open>
  C1, amended. After the runner of the job registered under the key \<open>K\<close> of a path has
  ended with an error, a \<open>getOrStartHLS\<close> for the same path (same \<open>K\<close>) returns the
  resident job and changes nothing: no admission, no new process. The job is closed and
  its \<open>Cached\<close> flag is what it was.
\<close>

theorem failed_job_stays_resident:
  assumes "hlsJobKey e (files w) P = K"
    and "hlsJobs w K = Some job"
    and "r \<noteq> Exit 0"
    and "hlsJobKey e (files (runner_finish w job r)) P = K"
  shows "getOrStartHLS e (runner_finish w job r) P = (Inr job, runner_finish w job r)
       \<and> Done (heap (runner_finish w job r) job)
       \<and> Cached (heap (runner_finish w job r) job) = Cached (heap w job)"
proof -
  from assms(2,4)
  have "hlsJobs (runner_finish w job r) (hlsJobKey e (files (runner_finish w job r)) P) = Some job"
    by simp
  then have "getOrStartHLS e (runner_finish w job r) P = (Inr job, runner_finish w job r)"
    by (rule getOrStartHLS_resident)
  with assms(3) show ?thesis by (simp add: runner_finish_failed_Cached)
qed

text \<open>The admitted job whose process could not be started.\<close>

theorem failed_job_stays_resident_witness:
  "getOrStartHLS env0 (runner_finish world_admitted 0 StartFailed) ''/v/foo.mkv''
     = (Inr 0, runner_finish world_admitted 0 StartFailed)
   \<and> Done (heap (runner_finish world_admitted 0 StartFailed) 0)
   \<and> \<not> Cached (heap (runner_finish world_admitted 0 StartFailed) 0)"
proof -
  have a: "hlsJobs world_admitted ''a2ad71a752564474'' = Some 0" by (simp add: admitted_registry)
  from failed_job_stays_resident [of env0 world_admitted "''/v/foo.mkv''" "''a2ad71a752564474''" 0 StartFailed,
      OF key0 a _ key0] admitted_job
  show ?thesis by simp
qed

text \<open>
  C5. When \<^verbatim>\<open>cmd.Run()\<close> of a job returns: with an error (a non-zero exit status),
  nothing at or below the job's directory is left on disk and \<open>Cached\<close> is unchanged
  (false for a job that was started); with exit status 0, \<open>Cached\<close> is true and the
  files stay; in both cases \<open>Done\<close> is closed and the registry is unchanged, so the job
  stays registered.
\<close>

theorem runner_finish_effects:
  "(r \<noteq> Exit 0 \<longrightarrow>
      (\<forall>p. under (Dir (heap w job)) p \<longrightarrow>
           files (runner_finish w job r) p = None \<and> p \<notin> dirs (runner_finish w job r))
      \<and> Cached (heap (runner_finish w job r) job) = Cached (heap w job))
   \<and> (r = Exit 0 \<longrightarrow>
        Cached (heap (runner_finish w job r) job)
        \<and> files (runner_finish w job r) = files w \<and> dirs (runner_finish w job r) = dirs w)
   \<and> Done (heap (runner_finish w job r) job)
   \<and> hlsJobs (runner_finish w job r) = hlsJobs w"
  by (simp add: runner_finish_def Let_def RemoveAll_def)

lemma partial_job:
  "Dir (heap world_partial 0) = ''/home/u/.cache/localcinema/hls/a2ad71a752564474''
   \<and> \<not> Cached (heap world_partial 0) \<and> hlsJobs world_partial = [''a2ad71a752564474'' \<mapsto> 0]"
  using admitted_job by (simp add: world_partial_def admitted_registry)

text \<open>Exit status 1 and exit status 0 on that state.\<close>

theorem runner_finish_effects_witness:
  "files world_partial ''/home/u/.cache/localcinema/hls/a2ad71a752564474/seg00000.ts'' \<noteq> None
   \<and> files (runner_finish world_partial 0 (Exit 1))
        ''/home/u/.cache/localcinema/hls/a2ad71a752564474/seg00000.ts'' = None
   \<and> ''/home/u/.cache/localcinema/hls/a2ad71a752564474'' \<notin> dirs (runner_finish world_partial 0 (Exit 1))
   \<and> \<not> Cached (heap (runner_finish world_partial 0 (Exit 1)) 0)
   \<and> Done (heap (runner_finish world_partial 0 (Exit 1)) 0)
   \<and> hlsJobs (runner_finish world_partial 0 (Exit 1)) ''a2ad71a752564474'' = Some 0
   \<and> Cached (heap (runner_finish world_partial 0 (Exit 0)) 0)
   \<and> Done (heap (runner_finish world_partial 0 (Exit 0)) 0)
   \<and> files (runner_finish world_partial 0 (Exit 0))
        ''/home/u/.cache/localcinema/hls/a2ad71a752564474/seg00000.ts'' \<noteq> None
   \<and> hlsJobs (runner_finish world_partial 0 (Exit 0)) ''a2ad71a752564474'' = Some 0"
proof -
  have u1: "under (Dir (heap world_partial 0))
      ''/home/u/.cache/localcinema/hls/a2ad71a752564474/seg00000.ts''"
    using partial_job by (simp add: under_def)
  have u2: "under (Dir (heap world_partial 0)) ''/home/u/.cache/localcinema/hls/a2ad71a752564474''"
    using partial_job by (simp add: under_def)
  have f: "files world_partial ''/home/u/.cache/localcinema/hls/a2ad71a752564474/seg00000.ts'' \<noteq> None"
    by (simp add: world_partial_def)
  from runner_finish_effects [of "Exit 1" world_partial 0]
       runner_finish_effects [of "Exit 0" world_partial 0] u1 u2 f partial_job
  show ?thesis by simp
qed

lemma StopHLS_registry: "hlsJobs (StopHLS w K) = (hlsJobs w)(K := None)"
  by (auto simp add: StopHLS_def Let_def split: option.splits)

lemma StopHLS_kills:
  assumes "hlsJobs w K = Some job" and "heldProcess (heap w job) = Some pid"
    and "\<not> Cached (heap w job)"
  shows "StopHLS w K =
     RemoveAll (w\<lparr>hlsJobs := (hlsJobs w)(K := None), trace := trace w @ [Kill pid]\<rparr>)
       (Dir (heap w job))"
  using assms by (auto simp add: StopHLS_def heldProcess_def Let_def split: option.splits)

lemma StopHLS_keeps:
  assumes "hlsJobs w K = Some job"
    and "heldProcess (heap w job) = None \<or> Cached (heap w job)"
  shows "StopHLS w K = w\<lparr>hlsJobs := (hlsJobs w)(K := None)\<rparr>"
  using assms by (auto simp add: StopHLS_def heldProcess_def Let_def split: option.splits)

text \<open>
  C6. For a key \<open>K\<close> with a registered job, \<open>StopHLS\<close> removes \<open>K\<close> from the
  registry and touches no other key. It kills the process and removes everything at or
  below the job's directory when the job holds a process and is not cached; otherwise
  it kills nothing and leaves files and directories as they are. For a cached job whose
  directory holds a complete playlist, the next \<open>getOrStartHLS\<close> for a path with key
  \<open>K\<close> adopts the directory: a job with no process, cached, and no process started.
\<close>

theorem StopHLS_effects:
  assumes "hlsJobs w K = Some job"
  shows "hlsJobs (StopHLS w K) = (hlsJobs w)(K := None)
       \<and> (\<forall>pid. heldProcess (heap w job) = Some pid \<and> \<not> Cached (heap w job) \<longrightarrow>
             trace (StopHLS w K) = trace w @ [Kill pid]
             \<and> (\<forall>p. under (Dir (heap w job)) p \<longrightarrow>
                    files (StopHLS w K) p = None \<and> p \<notin> dirs (StopHLS w K)))
       \<and> (heldProcess (heap w job) = None \<or> Cached (heap w job) \<longrightarrow>
             trace (StopHLS w K) = trace w
             \<and> files (StopHLS w K) = files w \<and> dirs (StopHLS w K) = dirs w)
       \<and> (\<forall>e P. Cached (heap w job) \<and> hlsJobKey e (files w) P = K
               \<and> isCacheComplete (files w) (Join (hlsCacheDir w) K) \<longrightarrow>
             (\<exists>job' w'. getOrStartHLS e (StopHLS w K) P = (Inr job', w')
                \<and> hlsJobs w' K = Some job'
                \<and> Cmd (heap w' job') = None \<and> Cached (heap w' job')
                \<and> trace w' = trace w))"
proof -
  have a: "hlsJobs (StopHLS w K) = (hlsJobs w)(K := None)" by (rule StopHLS_registry)
  have b: "\<forall>pid. heldProcess (heap w job) = Some pid \<and> \<not> Cached (heap w job) \<longrightarrow>
             trace (StopHLS w K) = trace w @ [Kill pid]
             \<and> (\<forall>p. under (Dir (heap w job)) p \<longrightarrow>
                    files (StopHLS w K) p = None \<and> p \<notin> dirs (StopHLS w K))"
    using assms by (auto simp add: StopHLS_kills RemoveAll_def)
  have c: "heldProcess (heap w job) = None \<or> Cached (heap w job) \<longrightarrow>
             trace (StopHLS w K) = trace w
             \<and> files (StopHLS w K) = files w \<and> dirs (StopHLS w K) = dirs w"
    using assms by (auto simp add: StopHLS_keeps)
  have d: "\<forall>e P. Cached (heap w job) \<and> hlsJobKey e (files w) P = K
               \<and> isCacheComplete (files w) (Join (hlsCacheDir w) K) \<longrightarrow>
             (\<exists>job' w'. getOrStartHLS e (StopHLS w K) P = (Inr job', w')
                \<and> hlsJobs w' K = Some job'
                \<and> Cmd (heap w' job') = None \<and> Cached (heap w' job')
                \<and> trace w' = trace w)"
  proof (intro allI impI)
    fix e P
    assume h: "Cached (heap w job) \<and> hlsJobKey e (files w) P = K
               \<and> isCacheComplete (files w) (Join (hlsCacheDir w) K)"
    with assms have st: "StopHLS w K = w\<lparr>hlsJobs := (hlsJobs w)(K := None)\<rparr>"
      by (simp add: StopHLS_keeps)
    have k: "hlsJobKey e (files (StopHLS w K)) P = K" using h by (simp add: st)
    have n: "hlsJobs (StopHLS w K) (hlsJobKey e (files (StopHLS w K)) P) = None"
      by (simp add: k StopHLS_registry)
    have i: "isCacheComplete (files (StopHLS w K))
        (Join (hlsCacheDir (StopHLS w K)) (hlsJobKey e (files (StopHLS w K)) P))"
      using h by (simp add: k) (simp add: st)
    from getOrStartHLS_adopt [OF n i]
    show "\<exists>job' w'. getOrStartHLS e (StopHLS w K) P = (Inr job', w')
                \<and> hlsJobs w' K = Some job'
                \<and> Cmd (heap w' job') = None \<and> Cached (heap w' job')
                \<and> trace w' = trace w"
      by (simp add: k) (simp add: st)
  qed
  from a b c d show ?thesis by blast
qed

lemma runner_start_held:
  "Cmd (heap w job) \<noteq> None \<Longrightarrow> heldProcess (heap (runner_start w job pid) job) = Some pid"
  by (auto simp add: runner_start_def heldProcess_def)

lemma runner_start_trace:
  "files (runner_start w job pid) = files w \<and> dirs (runner_start w job pid) = dirs w
   \<and> hlsCacheDir (runner_start w job pid) = hlsCacheDir w"
  by (simp add: runner_start_def split: option.splits)

lemma admitted_cache_root: "hlsCacheDir world_admitted = ''/home/u/.cache/localcinema/hls''"
  by (simp add: world_admitted_def getOrStartHLS_def key0 world0_def Let_def isCacheComplete_def
      ReadFile_def os_Open_def join_examples MkdirAll_def new_job_def)

lemma done_facts:
  "hlsJobs world_done ''a2ad71a752564474'' = Some 0
   \<and> Cached (heap world_done 0)
   \<and> hlsCacheDir world_done = ''/home/u/.cache/localcinema/hls''
   \<and> files world_done ''/home/u/.cache/localcinema/hls/a2ad71a752564474/stream.m3u8''
        = Some (plain_file playlist_done)"
  by (simp add: world_done_def world_written_def runner_finish_def Let_def admitted_registry
      runner_start_trace admitted_cache_root)

lemma done_complete:
  "isCacheComplete (files world_done) (Join (hlsCacheDir world_done) ''a2ad71a752564474'')"
  using done_facts contains_endlist
  by (simp add: isCacheComplete_def join_examples ReadFile_def os_Open_def Let_def)
     (simp add: plain_file_def list_ex_never)

text \<open>\<open>StopHLS\<close> on the running job and on the completed one.\<close>

theorem StopHLS_effects_witness:
  "hlsJobs (StopHLS world_partial ''a2ad71a752564474'') ''a2ad71a752564474'' = None
   \<and> trace (StopHLS world_partial ''a2ad71a752564474'') = trace world_partial @ [Kill 4711]
   \<and> files (StopHLS world_partial ''a2ad71a752564474'')
        ''/home/u/.cache/localcinema/hls/a2ad71a752564474/seg00000.ts'' = None
   \<and> hlsJobs (StopHLS world_done ''a2ad71a752564474'') ''a2ad71a752564474'' = None
   \<and> trace (StopHLS world_done ''a2ad71a752564474'') = trace world_done
   \<and> files (StopHLS world_done ''a2ad71a752564474'') = files world_done
   \<and> (\<exists>job' w'. getOrStartHLS env0 (StopHLS world_done ''a2ad71a752564474'') ''/v/foo.mkv''
                    = (Inr job', w')
          \<and> hlsJobs w' ''a2ad71a752564474'' = Some job'
          \<and> Cmd (heap w' job') = None \<and> Cached (heap w' job')
          \<and> trace w' = trace world_done)"
proof -
  have r1: "hlsJobs world_partial ''a2ad71a752564474'' = Some 0" using partial_job by simp
  have h1: "heldProcess (heap world_partial 0) = Some 4711"
    using admitted_job runner_start_held [of world_admitted 0 4711]
    by (simp add: world_partial_def)
  have c1: "\<not> Cached (heap world_partial 0)" using partial_job by simp
  have u1: "under (Dir (heap world_partial 0))
      ''/home/u/.cache/localcinema/hls/a2ad71a752564474/seg00000.ts''"
    using partial_job by (simp add: under_def)
  have r2: "hlsJobs world_done ''a2ad71a752564474'' = Some 0" using done_facts by simp
  have c2: "Cached (heap world_done 0)" using done_facts by simp
  note t1 = StopHLS_effects [OF r1]
  note t2 = StopHLS_effects [OF r2]
  from t1 h1 c1 u1 have p1:
    "hlsJobs (StopHLS world_partial ''a2ad71a752564474'') ''a2ad71a752564474'' = None
     \<and> trace (StopHLS world_partial ''a2ad71a752564474'') = trace world_partial @ [Kill 4711]
     \<and> files (StopHLS world_partial ''a2ad71a752564474'')
          ''/home/u/.cache/localcinema/hls/a2ad71a752564474/seg00000.ts'' = None"
    by simp
  from t2 c2 have p2:
    "hlsJobs (StopHLS world_done ''a2ad71a752564474'') ''a2ad71a752564474'' = None
     \<and> trace (StopHLS world_done ''a2ad71a752564474'') = trace world_done
     \<and> files (StopHLS world_done ''a2ad71a752564474'') = files world_done"
    by simp
  from t2 have "\<forall>e P. Cached (heap world_done 0) \<and> hlsJobKey e (files world_done) P = ''a2ad71a752564474''
               \<and> isCacheComplete (files world_done) (Join (hlsCacheDir world_done) ''a2ad71a752564474'') \<longrightarrow>
             (\<exists>job' w'. getOrStartHLS e (StopHLS world_done ''a2ad71a752564474'') P = (Inr job', w')
                \<and> hlsJobs w' ''a2ad71a752564474'' = Some job'
                \<and> Cmd (heap w' job') = None \<and> Cached (heap w' job')
                \<and> trace w' = trace world_done)"
    by blast
  with c2 key0 [of "files world_done" "''/v/foo.mkv''"] done_complete have p3:
    "\<exists>job' w'. getOrStartHLS env0 (StopHLS world_done ''a2ad71a752564474'') ''/v/foo.mkv''
                    = (Inr job', w')
          \<and> hlsJobs w' ''a2ad71a752564474'' = Some job'
          \<and> Cmd (heap w' job') = None \<and> Cached (heap w' job')
          \<and> trace w' = trace world_done"
    by blast
  from p1 p2 p3 show ?thesis by blast
qed

section \<open>Claims about the artifact server\<close>

lemma TrimPrefix_hls: "TrimPrefix (''/hls/'' @ s) ''/hls/'' = s"
  by (simp add: TrimPrefix_def)

lemma Index_slash:
  "CHR ''/'' \<notin> set K \<Longrightarrow> Index (K @ ''/'' @ name) ''/'' = Some (length K)"
  by (induction K) auto

lemma SplitN2_key_name:
  "CHR ''/'' \<notin> set K \<Longrightarrow> SplitN2 (K @ ''/'' @ name) = [K, name]"
  using Index_slash [of K name] by (simp add: SplitN2_def)

lemma hls_url_parts:
  assumes "CHR ''/'' \<notin> set K"
  shows "SplitN2 (TrimPrefix (''/hls/'' @ K @ ''/'' @ name) ''/hls/'') = [K, name]"
proof -
  have "TrimPrefix (''/hls/'' @ K @ ''/'' @ name) ''/hls/'' = K @ ''/'' @ name"
    by (rule TrimPrefix_hls)
  with SplitN2_key_name [OF assms, of name] show ?thesis by (simp only:)
qed

lemma pollLoop_found:
  "n < limit \<Longrightarrow> i \<le> n \<Longrightarrow> check n \<Longrightarrow> (\<forall>j. i \<le> j \<and> j < n \<longrightarrow> \<not> check j) \<Longrightarrow>
   pollLoop check limit i = (True, n)"
proof (induction "n - i" arbitrary: i)
  case 0
  then have "i = n" by simp
  with 0 show ?case by (subst pollLoop.simps) simp
next
  case (Suc d)
  then have lt: "i < n" by simp
  with Suc.prems have nc: "\<not> check i" by simp
  have "pollLoop check limit (Suc i) = (True, n)"
    using Suc.hyps Suc.prems lt by (intro Suc.hyps(1)) auto
  with lt nc Suc.prems show ?case by (subst pollLoop.simps) simp
qed

lemma pollLoop_timeout:
  "i \<le> limit \<Longrightarrow> (\<forall>j. i \<le> j \<and> j < limit \<longrightarrow> \<not> check j) \<Longrightarrow>
   pollLoop check limit i = (False, limit)"
proof (induction "limit - i" arbitrary: i)
  case 0
  then have "i = limit" by simp
  then show ?case by (subst pollLoop.simps) simp
next
  case (Suc d)
  then have lt: "i < limit" by simp
  with Suc.prems have nc: "\<not> check i" by simp
  have "pollLoop check limit (Suc i) = (False, limit)"
    using Suc.hyps Suc.prems lt by (intro Suc.hyps(1)) auto
  with lt nc show ?case by (subst pollLoop.simps) simp
qed

lemma HasSuffix_last:
  "HasSuffix s (suf @ [c]) \<Longrightarrow> last s = c"
proof -
  assume h: "HasSuffix s (suf @ [c])"
  then have d: "drop (length s - length (suf @ [c])) s = suf @ [c]"
    and l: "length (suf @ [c]) \<le> length s"
    by (simp_all add: HasSuffix_def)
  from l have "length s - length (suf @ [c]) < length s" by simp
  then have "last (drop (length s - length (suf @ [c])) s) = last s" by (rule last_drop)
  with d show ?thesis by simp
qed

lemma ts_not_m3u8: "HasSuffix name ''.ts'' \<Longrightarrow> \<not> HasSuffix name ''.m3u8''"
  using HasSuffix_last [of name "''.t''" "CHR ''s''"] HasSuffix_last [of name "''.m3u''" "CHR ''8''"]
  by auto

text \<open>
  C9. A request \<open>/hls/K/name\<close> whose \<open>name\<close> contains \<open>/\<close> or \<open>..\<close> is answered
  404 and nothing else happens: the state is returned as it was (no \<open>lastAccess\<close> is
  written), nothing is slept, and the answer is the same for every state and every
  filesystem, so no file decides it and none is served.
\<close>

theorem handleHLS_rejects_traversal:
  assumes "CHR ''/'' \<notin> set K"
    and "Contains name ''/'' \<or> Contains name ''..''"
  shows "handleHLS w fsAt (''/hls/'' @ K @ ''/'' @ name) = (NotFound, w, 0)"
  unfolding handleHLS_def Let_def
  by (simp only: hls_url_parts [OF assms(1)]) (simp add: assms(2))

text \<open>A traversal attempt against the registered key.\<close>

theorem handleHLS_rejects_traversal_witness:
  "handleHLS world_later (\<lambda>i. files world_later) ''/hls/a2ad71a752564474/../stream.m3u8''
     = (NotFound, world_later, 0)"
proof -
  have a: "CHR ''/'' \<notin> set ''a2ad71a752564474''" by simp
  have b: "Contains ''../stream.m3u8'' ''/'' \<or> Contains ''../stream.m3u8'' ''..''" by simp
  from handleHLS_rejects_traversal [OF a b, of world_later "\<lambda>i. files world_later"]
  show ?thesis by simp
qed

lemma pollLoop_found0:
  "n < limit \<Longrightarrow> check n \<Longrightarrow> (\<forall>i<n. \<not> check i) \<Longrightarrow> pollLoop check limit 0 = (True, n)"
  by (rule pollLoop_found) simp_all

lemma pollLoop_timeout0:
  "(\<forall>i<limit. \<not> check i) \<Longrightarrow> pollLoop check limit 0 = (False, limit)"
  by (rule pollLoop_timeout) simp_all

lemma handleHLS_resolved:
  assumes "CHR ''/'' \<notin> set K" and "\<not> Contains name ''/''" and "\<not> Contains name ''..''"
    and "resolveDir (TouchHLS w K) K = Some dir"
  shows "handleHLS w fsAt (''/hls/'' @ K @ ''/'' @ name) =
     (if HasSuffix name ''.m3u8''
      then (case pollLoop (\<lambda>i. playlistReady (fsAt i) (Join dir name)) 150 0 of
              (ready, n) \<Rightarrow>
                if \<not> ready then (HttpError ''m3u8 not ready'' 503, TouchHLS w K, 100 * n)
                else (ServeFile [(''Content-Type'', ''application/vnd.apple.mpegurl''),
                                 (''Cache-Control'', ''no-cache'')] (Join dir name),
                      TouchHLS w K, 100 * n))
      else if HasSuffix name ''.ts''
      then (case pollLoop (\<lambda>i. segmentReady (fsAt i) (Join dir name)) 300 0 of
              (ready, n) \<Rightarrow>
                if \<not> ready then (HttpError ''ts segment not ready'' 503, TouchHLS w K, 100 * n)
                else (ServeFile [(''Content-Type'', ''video/mp2t'')] (Join dir name),
                      TouchHLS w K, 100 * n))
      else (ServeFile [] (Join dir name), TouchHLS w K, 0))"
  unfolding handleHLS_def Let_def
  by (simp only: hls_url_parts [OF assms(1)]) (simp add: assms(2,3,4))

lemma handleHLS_poll_outcomes:
  assumes "CHR ''/'' \<notin> set K" and "\<not> Contains name ''/''" and "\<not> Contains name ''..''"
    and "resolveDir (TouchHLS w K) K = Some dir"
  shows "(HasSuffix name ''.m3u8'' \<longrightarrow>
            (\<forall>n. n < 150 \<and> playlistReady (fsAt n) (Join dir name)
                  \<and> (\<forall>i<n. \<not> playlistReady (fsAt i) (Join dir name)) \<longrightarrow>
               handleHLS w fsAt (''/hls/'' @ K @ ''/'' @ name) =
                 (ServeFile [(''Content-Type'', ''application/vnd.apple.mpegurl''),
                             (''Cache-Control'', ''no-cache'')] (Join dir name),
                  TouchHLS w K, 100 * n))
          \<and> ((\<forall>i<150. \<not> playlistReady (fsAt i) (Join dir name)) \<longrightarrow>
               handleHLS w fsAt (''/hls/'' @ K @ ''/'' @ name) =
                 (HttpError ''m3u8 not ready'' 503, TouchHLS w K, 15000)))
       \<and> (HasSuffix name ''.ts'' \<longrightarrow>
            (\<forall>n. n < 300 \<and> segmentReady (fsAt n) (Join dir name)
                  \<and> (\<forall>i<n. \<not> segmentReady (fsAt i) (Join dir name)) \<longrightarrow>
               handleHLS w fsAt (''/hls/'' @ K @ ''/'' @ name) =
                 (ServeFile [(''Content-Type'', ''video/mp2t'')] (Join dir name),
                  TouchHLS w K, 100 * n))
          \<and> ((\<forall>i<300. \<not> segmentReady (fsAt i) (Join dir name)) \<longrightarrow>
               handleHLS w fsAt (''/hls/'' @ K @ ''/'' @ name) =
                 (HttpError ''ts segment not ready'' 503, TouchHLS w K, 30000)))"
proof -
  note H = handleHLS_resolved [OF assms, of fsAt]
  have m: "HasSuffix name ''.m3u8'' \<longrightarrow>
            (\<forall>n. n < 150 \<and> playlistReady (fsAt n) (Join dir name)
                  \<and> (\<forall>i<n. \<not> playlistReady (fsAt i) (Join dir name)) \<longrightarrow>
               handleHLS w fsAt (''/hls/'' @ K @ ''/'' @ name) =
                 (ServeFile [(''Content-Type'', ''application/vnd.apple.mpegurl''),
                             (''Cache-Control'', ''no-cache'')] (Join dir name),
                  TouchHLS w K, 100 * n))
          \<and> ((\<forall>i<150. \<not> playlistReady (fsAt i) (Join dir name)) \<longrightarrow>
               handleHLS w fsAt (''/hls/'' @ K @ ''/'' @ name) =
                 (HttpError ''m3u8 not ready'' 503, TouchHLS w K, 15000))"
  proof (intro impI conjI allI)
    fix n
    assume s: "HasSuffix name ''.m3u8''"
      and r: "n < 150 \<and> playlistReady (fsAt n) (Join dir name)
                  \<and> (\<forall>i<n. \<not> playlistReady (fsAt i) (Join dir name))"
    then have "pollLoop (\<lambda>i. playlistReady (fsAt i) (Join dir name)) 150 0 = (True, n)"
      by (intro pollLoop_found0) simp_all
    with s show "handleHLS w fsAt (''/hls/'' @ K @ ''/'' @ name) =
                 (ServeFile [(''Content-Type'', ''application/vnd.apple.mpegurl''),
                             (''Cache-Control'', ''no-cache'')] (Join dir name),
                  TouchHLS w K, 100 * n)"
      by (simp only: H if_True split not_True_eq_False if_False)
  next
    assume s: "HasSuffix name ''.m3u8''"
      and r: "\<forall>i<150. \<not> playlistReady (fsAt i) (Join dir name)"
    then have "pollLoop (\<lambda>i. playlistReady (fsAt i) (Join dir name)) 150 0 = (False, 150)"
      by (intro pollLoop_timeout0) simp_all
    with s show "handleHLS w fsAt (''/hls/'' @ K @ ''/'' @ name) =
                 (HttpError ''m3u8 not ready'' 503, TouchHLS w K, 15000)"
      by (simp only: H if_True split not_False_eq_True) simp
  qed
  have t: "HasSuffix name ''.ts'' \<longrightarrow>
            (\<forall>n. n < 300 \<and> segmentReady (fsAt n) (Join dir name)
                  \<and> (\<forall>i<n. \<not> segmentReady (fsAt i) (Join dir name)) \<longrightarrow>
               handleHLS w fsAt (''/hls/'' @ K @ ''/'' @ name) =
                 (ServeFile [(''Content-Type'', ''video/mp2t'')] (Join dir name),
                  TouchHLS w K, 100 * n))
          \<and> ((\<forall>i<300. \<not> segmentReady (fsAt i) (Join dir name)) \<longrightarrow>
               handleHLS w fsAt (''/hls/'' @ K @ ''/'' @ name) =
                 (HttpError ''ts segment not ready'' 503, TouchHLS w K, 30000))"
  proof (intro impI conjI allI)
    fix n
    assume s: "HasSuffix name ''.ts''"
      and r: "n < 300 \<and> segmentReady (fsAt n) (Join dir name)
                  \<and> (\<forall>i<n. \<not> segmentReady (fsAt i) (Join dir name))"
    from s have ns: "HasSuffix name ''.m3u8'' = False" using ts_not_m3u8 by simp
    from r have "pollLoop (\<lambda>i. segmentReady (fsAt i) (Join dir name)) 300 0 = (True, n)"
      by (intro pollLoop_found0) simp_all
    with s ns show "handleHLS w fsAt (''/hls/'' @ K @ ''/'' @ name) =
                 (ServeFile [(''Content-Type'', ''video/mp2t'')] (Join dir name),
                  TouchHLS w K, 100 * n)"
      by (simp only: H if_True split not_True_eq_False if_False)
  next
    assume s: "HasSuffix name ''.ts''"
      and r: "\<forall>i<300. \<not> segmentReady (fsAt i) (Join dir name)"
    from s have ns: "HasSuffix name ''.m3u8'' = False" using ts_not_m3u8 by simp
    from r have "pollLoop (\<lambda>i. segmentReady (fsAt i) (Join dir name)) 300 0 = (False, 300)"
      by (intro pollLoop_timeout0) simp_all
    with s ns show "handleHLS w fsAt (''/hls/'' @ K @ ''/'' @ name) =
                 (HttpError ''ts segment not ready'' 503, TouchHLS w K, 30000)"
      by (simp only: H if_True if_False split not_False_eq_True) simp
  qed
  from m t show ?thesis by (rule conjI)
qed

lemma playlistReady_iff:
  "playlistReady fs p = (\<exists>data. ReadFile fs p = Some data \<and> Contains data ''.ts'')"
  by (auto simp add: playlistReady_def split: option.splits)

text \<open>
  C4. For a request \<open>/hls/K/name\<close> with a well-formed \<open>name\<close> whose directory
  resolves to \<open>dir\<close>: when \<open>name\<close> ends in \<open>.m3u8\<close>, every attempt tests that the
  file can be read and its content contains \<open>.ts\<close>, and a failed attempt sleeps
  100 ms; if attempt \<open>n < 150\<close> is the first that succeeds the file is served with
  content type \<open>application/vnd.apple.mpegurl\<close> and \<open>Cache-Control: no-cache\<close> after
  \<open>100 * n\<close> ms, and if none of the 150 attempts succeeds the answer is 503 after
  15000 ms. When \<open>name\<close> ends in \<open>.ts\<close>, the same with the test that the file
  exists, 300 attempts, content type \<open>video/mp2t\<close> and 30000 ms.
\<close>

theorem handleHLS_waits:
  assumes "CHR ''/'' \<notin> set K" and "\<not> Contains name ''/''" and "\<not> Contains name ''..''"
    and "resolveDir (TouchHLS w K) K = Some dir"
  shows "(HasSuffix name ''.m3u8'' \<longrightarrow>
            (\<forall>n. n < 150
                  \<and> (\<exists>data. ReadFile (fsAt n) (Join dir name) = Some data
                              \<and> Contains data ''.ts'')
                  \<and> (\<forall>i<n. \<not> (\<exists>data. ReadFile (fsAt i) (Join dir name) = Some data
                                         \<and> Contains data ''.ts'')) \<longrightarrow>
               handleHLS w fsAt (''/hls/'' @ K @ ''/'' @ name) =
                 (ServeFile [(''Content-Type'', ''application/vnd.apple.mpegurl''),
                             (''Cache-Control'', ''no-cache'')] (Join dir name),
                  TouchHLS w K, 100 * n))
          \<and> ((\<forall>i<150. \<not> (\<exists>data. ReadFile (fsAt i) (Join dir name) = Some data
                                   \<and> Contains data ''.ts'')) \<longrightarrow>
               handleHLS w fsAt (''/hls/'' @ K @ ''/'' @ name) =
                 (HttpError ''m3u8 not ready'' 503, TouchHLS w K, 15000)))
       \<and> (HasSuffix name ''.ts'' \<longrightarrow>
            (\<forall>n. n < 300 \<and> Stat (fsAt n) (Join dir name) \<noteq> None
                  \<and> (\<forall>i<n. Stat (fsAt i) (Join dir name) = None) \<longrightarrow>
               handleHLS w fsAt (''/hls/'' @ K @ ''/'' @ name) =
                 (ServeFile [(''Content-Type'', ''video/mp2t'')] (Join dir name),
                  TouchHLS w K, 100 * n))
          \<and> ((\<forall>i<300. Stat (fsAt i) (Join dir name) = None) \<longrightarrow>
               handleHLS w fsAt (''/hls/'' @ K @ ''/'' @ name) =
                 (HttpError ''ts segment not ready'' 503, TouchHLS w K, 30000)))"
  using handleHLS_poll_outcomes [OF assms, of fsAt]
  by (simp only: playlistReady_iff segmentReady_def not_not)

lemma TouchHLS_fields [simp]:
  "hlsJobs (TouchHLS w K) = hlsJobs w"
  "Dir (heap (TouchHLS w K) a) = Dir (heap w a)"
  "files (TouchHLS w K) = files w"
  "hlsCacheDir (TouchHLS w K) = hlsCacheDir w"
  by (simp_all add: TouchHLS_def split: option.splits)

lemma admitted_files: "files world_admitted = files world0"
  by (simp add: world_admitted_def getOrStartHLS_def key0 world0_def Let_def isCacheComplete_def
      ReadFile_def os_Open_def join_examples MkdirAll_def new_job_def)

lemma growing_reads:
  "ReadFile (fs_growing 0) ''/home/u/.cache/localcinema/hls/a2ad71a752564474/stream.m3u8'' = None"
  "ReadFile (fs_growing (Suc 0)) ''/home/u/.cache/localcinema/hls/a2ad71a752564474/stream.m3u8''
     = Some playlist_empty"
  "ReadFile (fs_growing 2) ''/home/u/.cache/localcinema/hls/a2ad71a752564474/stream.m3u8''
     = Some playlist_live"
  "ReadFile (fs_stalled i) ''/home/u/.cache/localcinema/hls/a2ad71a752564474/stream.m3u8''
     = Some playlist_empty"
  by (simp_all add: fs_growing_def fs_stalled_def ReadFile_def os_Open_def plain_file_def
      list_ex_never world0_def)

lemma playlist_contents:
  "\<not> Contains playlist_empty ''.ts''" "Contains playlist_live ''.ts''"
  by (simp_all add: playlist_empty_def playlist_live_def)

text \<open>
  The outcomes on the admitted job: the playlist served after two sleeps (absent at the
  first attempt, present without \<open>.ts\<close> at the second), the playlist that stays
  without \<open>.ts\<close> timing out, a segment timing out, a segment served at once.
\<close>

theorem handleHLS_waits_witness:
  "ReadFile (fs_growing 1) ''/home/u/.cache/localcinema/hls/a2ad71a752564474/stream.m3u8''
     = Some playlist_empty
   \<and> \<not> Contains playlist_empty ''.ts''
   \<and> handleHLS world_admitted fs_growing ''/hls/a2ad71a752564474/stream.m3u8''
     = (ServeFile [(''Content-Type'', ''application/vnd.apple.mpegurl''),
                   (''Cache-Control'', ''no-cache'')]
          ''/home/u/.cache/localcinema/hls/a2ad71a752564474/stream.m3u8'',
        TouchHLS world_admitted ''a2ad71a752564474'', 200)
   \<and> handleHLS world_admitted fs_stalled ''/hls/a2ad71a752564474/stream.m3u8''
     = (HttpError ''m3u8 not ready'' 503, TouchHLS world_admitted ''a2ad71a752564474'', 15000)
   \<and> handleHLS world_admitted fs_growing ''/hls/a2ad71a752564474/seg00000.ts''
     = (HttpError ''ts segment not ready'' 503, TouchHLS world_admitted ''a2ad71a752564474'', 30000)
   \<and> handleHLS world_admitted (\<lambda>i. files world_partial) ''/hls/a2ad71a752564474/seg00000.ts''
     = (ServeFile [(''Content-Type'', ''video/mp2t'')]
          ''/home/u/.cache/localcinema/hls/a2ad71a752564474/seg00000.ts'',
        TouchHLS world_admitted ''a2ad71a752564474'', 0)"
proof -
  have a: "CHR ''/'' \<notin> set ''a2ad71a752564474''" by simp
  have b1: "\<not> Contains ''stream.m3u8'' ''/''" and c1: "\<not> Contains ''stream.m3u8'' ''..''"
    by simp_all
  have b2: "\<not> Contains ''seg00000.ts'' ''/''" and c2: "\<not> Contains ''seg00000.ts'' ''..''"
    by simp_all
  have d: "resolveDir (TouchHLS world_admitted ''a2ad71a752564474'') ''a2ad71a752564474''
      = Some ''/home/u/.cache/localcinema/hls/a2ad71a752564474''"
    using admitted_job by (simp add: resolveDir_def admitted_registry)
  have s1: "HasSuffix ''stream.m3u8'' ''.m3u8''" by (simp add: HasSuffix_def)
  have s2: "HasSuffix ''seg00000.ts'' ''.ts''" by (simp add: HasSuffix_def)
  have u1: "''/hls/'' @ ''a2ad71a752564474'' @ ''/'' @ ''stream.m3u8''
      = ''/hls/a2ad71a752564474/stream.m3u8''" by simp
  have u2: "''/hls/'' @ ''a2ad71a752564474'' @ ''/'' @ ''seg00000.ts''
      = ''/hls/a2ad71a752564474/seg00000.ts''" by simp
  note M = handleHLS_waits [OF a b1 c1 d, THEN conjunct1, THEN mp, OF s1,
      unfolded join_examples u1]
  note S = handleHLS_waits [OF a b2 c2 d, THEN conjunct2, THEN mp, OF s2,
      unfolded join_examples u2]
  have g: "2 < (150::nat)
      \<and> (\<exists>data. ReadFile (fs_growing 2)
            ''/home/u/.cache/localcinema/hls/a2ad71a752564474/stream.m3u8'' = Some data
            \<and> Contains data ''.ts'')
      \<and> (\<forall>i<2. \<not> (\<exists>data. ReadFile (fs_growing i)
            ''/home/u/.cache/localcinema/hls/a2ad71a752564474/stream.m3u8'' = Some data
            \<and> Contains data ''.ts''))"
    by (auto simp add: growing_reads playlist_contents less_2_cases_iff)
  from M [of fs_growing, THEN conjunct1, THEN spec, of 2, THEN mp, OF g]
  have p1: "handleHLS world_admitted fs_growing ''/hls/a2ad71a752564474/stream.m3u8''
     = (ServeFile [(''Content-Type'', ''application/vnd.apple.mpegurl''),
                   (''Cache-Control'', ''no-cache'')]
          ''/home/u/.cache/localcinema/hls/a2ad71a752564474/stream.m3u8'',
        TouchHLS world_admitted ''a2ad71a752564474'', 200)"
    by simp
  have st: "\<forall>i<150. \<not> (\<exists>data. ReadFile (fs_stalled i)
            ''/home/u/.cache/localcinema/hls/a2ad71a752564474/stream.m3u8'' = Some data
            \<and> Contains data ''.ts'')"
    by (simp add: growing_reads playlist_contents)
  from M [of fs_stalled, THEN conjunct2, THEN mp, OF st]
  have p2: "handleHLS world_admitted fs_stalled ''/hls/a2ad71a752564474/stream.m3u8''
     = (HttpError ''m3u8 not ready'' 503, TouchHLS world_admitted ''a2ad71a752564474'', 15000)" .
  have t0: "\<forall>i<300. Stat (fs_growing i)
      ''/home/u/.cache/localcinema/hls/a2ad71a752564474/seg00000.ts'' = None"
    by (simp add: fs_growing_def Stat_def world0_def)
  from S [of fs_growing, THEN conjunct2, THEN mp, OF t0]
  have p3: "handleHLS world_admitted fs_growing ''/hls/a2ad71a752564474/seg00000.ts''
     = (HttpError ''ts segment not ready'' 503, TouchHLS world_admitted ''a2ad71a752564474'', 30000)" .
  have t1: "0 < (300::nat)
      \<and> Stat (files world_partial)
           ''/home/u/.cache/localcinema/hls/a2ad71a752564474/seg00000.ts'' \<noteq> None
      \<and> (\<forall>i<0::nat. Stat (files world_partial)
           ''/home/u/.cache/localcinema/hls/a2ad71a752564474/seg00000.ts'' = None)"
    by (simp add: Stat_def world_partial_def)
  from S [of "\<lambda>i. files world_partial", THEN conjunct1, THEN spec, of 0, THEN mp, OF t1]
  have p4: "handleHLS world_admitted (\<lambda>i. files world_partial) ''/hls/a2ad71a752564474/seg00000.ts''
     = (ServeFile [(''Content-Type'', ''video/mp2t'')]
          ''/home/u/.cache/localcinema/hls/a2ad71a752564474/seg00000.ts'',
        TouchHLS world_admitted ''a2ad71a752564474'', 0)"
    by simp
  from growing_reads(2) playlist_contents(1) p1 p2 p3 p4 show ?thesis by simp
qed

end
